theory Spec2Isabelle
  imports Complex_Main
begin

section \<open>The hybrid retrieval engine of minna (src/minna/core/vector\_db.py)\<close>

text \<open>
  A shallow embedding of \<^verbatim>\<open>VectorManager\<close>: \<^verbatim>\<open>add_documents\<close>, \<^verbatim>\<open>search_keyword\<close> and
  \<^verbatim>\<open>search\<close>. The class talks to SQLite (with the sqlite-vec extension), to an embedding
  model, to \<^verbatim>\<open>json\<close> and to \<^verbatim>\<open>uuid\<close>. The store is modelled as the two tables the SQL
  statements of the source name; the SQL operators the statements use (\<^verbatim>\<open>LIKE\<close>,
  \<^verbatim>\<open>length\<close>, \<^verbatim>\<open>!=\<close>, \<^verbatim>\<open>LIMIT\<close>, \<^verbatim>\<open>DISTINCT\<close>, \<^verbatim>\<open>ORDER BY\<close>) are written out as SQLite
  documents them; what the libraries compute (the embedding, the nearest-neighbour lookup,
  JSON text, fresh uuids) and which library call raises are fields of an environment
  record, so every theorem holds for every behaviour of the libraries.

  A Python \<^verbatim>\<open>str\<close> is a \<^typ>\<open>string\<close>, one \<^typ>\<open>char\<close> per code point (code points below 256).
\<close>

subsection \<open>Python and SQLite strings\<close>

text \<open>\<^verbatim>\<open>str.strip()\<close> removes leading and trailing whitespace: the code points for which
  \<^verbatim>\<open>str.isspace\<close> holds, below 256 these are 9-13, 28-32, 133 and 160.\<close>

definition py_isspace :: "char \<Rightarrow> bool" where
  "py_isspace c \<longleftrightarrow> c \<in> set [CHR 0x09, CHR 0x0A, CHR 0x0B, CHR 0x0C, CHR 0x0D,
     CHR 0x1C, CHR 0x1D, CHR 0x1E, CHR 0x1F, CHR 0x20, CHR 0x85, CHR 0xA0]"

definition py_strip :: "string \<Rightarrow> string" where
  "py_strip s = rev (dropWhile py_isspace (rev (dropWhile py_isspace s)))"

text \<open>SQLite reads a TEXT value as a NUL-terminated string in \<^verbatim>\<open>length()\<close> and
  \<^verbatim>\<open>LIKE\<close>: only the characters before the first U+0000 count.\<close>

definition sql_cstr :: "string \<Rightarrow> string" where
  "sql_cstr s = takeWhile (\<lambda>c. c \<noteq> CHR 0x00) s"

definition sql_length :: "string \<Rightarrow> nat" where
  "sql_length s = length (sql_cstr s)"

text \<open>\<^verbatim>\<open>LIKE\<close> folds the case of the 26 ASCII letters only.\<close>

definition sql_lower :: "char \<Rightarrow> char" where
  "sql_lower c = (case map_of (zip ''ABCDEFGHIJKLMNOPQRSTUVWXYZ'' ''abcdefghijklmnopqrstuvwxyz'') c of
       None \<Rightarrow> c | Some l \<Rightarrow> l)"

text \<open>The pattern language of \<^verbatim>\<open>LIKE\<close>: \<^verbatim>\<open>%\<close> matches any run of characters (also none),
  \<^verbatim>\<open>_\<close> matches exactly one character, any other character matches itself up to ASCII case.
  The first argument is the pattern.\<close>

fun like_match :: "string \<Rightarrow> string \<Rightarrow> bool" where
  "like_match [] s = (s = [])"
| "like_match (p # ps) [] = (if p = CHR ''%'' then like_match ps [] else False)"
| "like_match (p # ps) (c # cs) =
     (if p = CHR ''%'' then like_match ps (c # cs) \<or> like_match (p # ps) cs
      else (p = CHR ''_'' \<or> sql_lower p = sql_lower c) \<and> like_match ps cs)"

text \<open>Column values are TEXT or NULL (\<^const>\<open>None\<close>). A comparison with NULL is not true.\<close>

definition sql_like :: "string option \<Rightarrow> string \<Rightarrow> bool" where
  "sql_like v pattern = (case v of None \<Rightarrow> False | Some s \<Rightarrow> like_match (sql_cstr pattern) (sql_cstr s))"

definition sql_length_gt :: "string option \<Rightarrow> nat \<Rightarrow> bool" where
  "sql_length_gt v n = (case v of None \<Rightarrow> False | Some s \<Rightarrow> n < sql_length s)"

definition sql_ne :: "string option \<Rightarrow> string \<Rightarrow> bool" where
  "sql_ne v t = (case v of None \<Rightarrow> False | Some s \<Rightarrow> s \<noteq> t)"

text \<open>\<^verbatim>\<open>LIMIT n\<close>: a negative \<^verbatim>\<open>n\<close> means no upper bound.\<close>

definition sql_limit :: "int \<Rightarrow> 'a list \<Rightarrow> 'a list" where
  "sql_limit limit rows = (if limit < 0 then rows else take (nat limit) rows)"

text \<open>\<^verbatim>\<open>SELECT DISTINCT\<close>: of equal rows the first one stays.\<close>

definition sql_distinct :: "'a list \<Rightarrow> 'a list" where
  "sql_distinct rows = rev (remdups (rev rows))"

text \<open>The Python slice \<^verbatim>\<open>xs[:limit]\<close>: a negative bound counts from the end.\<close>

definition py_slice_to :: "int \<Rightarrow> 'a list \<Rightarrow> 'a list" where
  "py_slice_to limit xs =
     (if 0 \<le> limit then take (nat limit) xs else take (length xs - nat (- limit)) xs)"

subsection \<open>Data\<close>

text \<open>Python values, as far as metadata dictionaries and return values need them.\<close>

datatype pyval = PyNone | PyBool bool | PyInt int | PyStr string | PyList "pyval list"
  | PyDict "(pyval \<times> pyval) list" | PyObject string

type_synonym pydict = "(pyval \<times> pyval) list"

text \<open>\<^verbatim>\<open>minna.ingestion.base.Document\<close>.\<close>

record Document =
  source :: string
  content :: string
  metadata :: pydict

text \<open>A row of table \<^verbatim>\<open>documents\<close> with its implicit \<^verbatim>\<open>rowid\<close>; table \<^verbatim>\<open>vec_documents\<close>
  maps a rowid to an embedding. The embedding type \<open>'e\<close> is left open: \<^verbatim>\<open>embed_text\<close>
  computes it in floating point.\<close>

record doc_row =
  row_rowid :: nat
  row_id :: string
  row_source :: "string option"
  row_content :: "string option"
  row_metadata :: "string option"

record 'e db =
  documents :: "doc_row list"
  vec_documents :: "(nat \<times> 'e) list"

definition empty_db :: "'e db" where
  "empty_db = \<lparr>documents = [], vec_documents = []\<rparr>"

text \<open>The exceptions of the libraries.\<close>

datatype exn = EmbeddingError | TypeError | JSONDecodeError | KeyError | OverflowError
  | IntegrityError | OperationalError

text \<open>The library calls that touch the store, as the environment sees them. The number is the
  ordinal of the admitted candidate within one \<^verbatim>\<open>add_documents\<close> call.\<close>

datatype sql_op = Connect_add | Insert_document nat | Select_rowid nat | Insert_vec nat | Commit_add
  | Connect_keyword | Select_keyword | Connect_vector | Select_vector

record 'e env =
  embed_text :: "string \<Rightarrow> exn + 'e"
  uuid4 :: "nat \<Rightarrow> string"
  json_dumps :: "pydict \<Rightarrow> exn + string"
  json_loads :: "string \<Rightarrow> exn + pyval"
  vec_knn :: "(nat \<times> 'e) list \<Rightarrow> 'e \<Rightarrow> int \<Rightarrow> exn + (nat \<times> real) list"
  fails :: "sql_op \<Rightarrow> exn option"

text \<open>What a call writes: lines on standard output and the calls on the connection.\<close>

datatype event =
    Dropped_too_short pyval string
  | Dropped_unknown_source
  | Successfully_added nat
  | Error_adding exn
  | Commit
  | Rollback
  | Close

text \<open>A connection inside \<^verbatim>\<open>add_documents\<close>: \<open>committed\<close> is the store every other
  connection reads, \<open>work\<close> is what this connection's open transaction has written.\<close>

record 'e session =
  committed :: "'e db"
  work :: "'e db"
  inserted_count :: nat
  calls :: nat
  events :: "event list"

subsection \<open>The write path\<close>

text \<open>Modelled from the spec: the schema (\<^verbatim>\<open>core/schema.sql\<close>) is not among the sources.
  By sections 3 and 6 of the specification table \<^verbatim>\<open>documents\<close> has the columns \<^verbatim>\<open>id\<close> (the
  primary key), \<^verbatim>\<open>source\<close>, \<^verbatim>\<open>content\<close> and \<^verbatim>\<open>metadata\<close> and a sequential rowid assigned by
  the store, and the vector index is keyed by that rowid. So an insert of an \<^verbatim>\<open>id\<close> that is
  present fails, a fresh row gets one more than the largest rowid, and an insert into the index
  under a rowid that is present fails.\<close>

definition next_rowid :: "doc_row list \<Rightarrow> nat" where
  "next_rowid rows = Suc (fold max (map row_rowid rows) 0)"

definition insert_document ::
  "'e env \<Rightarrow> nat \<Rightarrow> string \<Rightarrow> string \<Rightarrow> string \<Rightarrow> string \<Rightarrow> 'e db \<Rightarrow> exn + 'e db" where
  "insert_document env k doc_id src cont metadata_json d =
     (case fails env (Insert_document k) of
        Some e \<Rightarrow> Inl e
      | None \<Rightarrow>
          if doc_id \<in> set (map row_id (documents d)) then Inl IntegrityError
          else Inr (d\<lparr>documents := documents d @
                 [\<lparr>row_rowid = next_rowid (documents d), row_id = doc_id, row_source = Some src,
                   row_content = Some cont, row_metadata = Some metadata_json\<rparr>]\<rparr>))"

text \<open>\<^verbatim>\<open>SELECT rowid FROM documents WHERE id = ?\<close> and \<^verbatim>\<open>fetchone()\<close>.\<close>

definition select_rowid :: "'e env \<Rightarrow> nat \<Rightarrow> string \<Rightarrow> 'e db \<Rightarrow> exn + nat option" where
  "select_rowid env k doc_id d =
     (case fails env (Select_rowid k) of
        Some e \<Rightarrow> Inl e
      | None \<Rightarrow> Inr (map_option row_rowid (find (\<lambda>r. row_id r = doc_id) (documents d))))"

text \<open>\<^verbatim>\<open>INSERT INTO vec_documents (rowid, embedding)\<close>.\<close>

definition insert_vec :: "'e env \<Rightarrow> nat \<Rightarrow> nat \<Rightarrow> 'e \<Rightarrow> 'e db \<Rightarrow> exn + 'e db" where
  "insert_vec env k rowid embedding d =
     (case fails env (Insert_vec k) of
        Some e \<Rightarrow> Inl e
      | None \<Rightarrow>
          if rowid \<in> set (map fst (vec_documents d)) then Inl OperationalError
          else Inr (d\<lparr>vec_documents := vec_documents d @ [(rowid, embedding)]\<rparr>))"

definition emit :: "event \<Rightarrow> 'e session \<Rightarrow> 'e session" where
  "emit ev s = s\<lparr>events := events s @ [ev]\<rparr>"

text \<open>Steps 1 to 4 of the loop body (lines 121-147), for a candidate that passed the
  quality filter. \<open>Inl (e, s)\<close> is exception \<open>e\<close> raised in session state \<open>s\<close>.\<close>

definition store_candidate ::
  "'e env \<Rightarrow> Document \<Rightarrow> 'e session \<Rightarrow> (exn \<times> 'e session) + 'e session" where
  "store_candidate env doc s =
     (case embed_text env (content doc) of
        Inl e \<Rightarrow> Inl (e, s)
      | Inr embedding \<Rightarrow>
         (let k = calls s; doc_id = uuid4 env k; s1 = s\<lparr>calls := Suc k\<rparr> in
          case json_dumps env (metadata doc) of
            Inl e \<Rightarrow> Inl (e, s1)
          | Inr metadata_json \<Rightarrow>
             (case insert_document env k doc_id (source doc) (content doc) metadata_json
                     (work s1) of
                Inl e \<Rightarrow> Inl (e, s1)
              | Inr w1 \<Rightarrow>
                 (let s2 = s1\<lparr>work := w1\<rparr> in
                  case select_rowid env k doc_id (work s2) of
                    Inl e \<Rightarrow> Inl (e, s2)
                  | Inr None \<Rightarrow> Inr s2
                  | Inr (Some rowid) \<Rightarrow>
                     (case insert_vec env k rowid embedding (work s2) of
                        Inl e \<Rightarrow> Inl (e, s2)
                      | Inr w2 \<Rightarrow>
                          Inr (s2\<lparr>work := w2, inserted_count := Suc (inserted_count s2)\<rparr>))))))"

text \<open>The body of the loop over the batch (lines 109-147): step 0, the quality filter, then
  the steps above.\<close>

definition loop_body :: "'e env \<Rightarrow> Document \<Rightarrow> 'e session \<Rightarrow> (exn \<times> 'e session) + 'e session" where
  "loop_body env doc s =
     (let clean_content = py_strip (content doc) in
      if length clean_content < 10 then
        (let channel = (case map_of (metadata doc) (PyStr ''channel_name'') of
                          None \<Rightarrow> PyStr ''Unknown'' | Some v \<Rightarrow> v)
         in Inr (emit (Dropped_too_short channel (take 20 clean_content)) s))
      else if source doc = ''Unknown'' then Inr (emit Dropped_unknown_source s)
      else store_candidate env doc s)"

fun insert_loop :: "'e env \<Rightarrow> Document list \<Rightarrow> 'e session \<Rightarrow> (exn \<times> 'e session) + 'e session" where
  "insert_loop env [] s = Inr s"
| "insert_loop env (doc # docs) s =
     (case loop_body env doc s of Inl es \<Rightarrow> Inl es | Inr s' \<Rightarrow> insert_loop env docs s')"

text \<open>\<^verbatim>\<open>conn.commit()\<close> publishes the transaction, \<^verbatim>\<open>conn.rollback()\<close> discards it.\<close>

definition commit :: "'e env \<Rightarrow> 'e session \<Rightarrow> (exn \<times> 'e session) + 'e session" where
  "commit env s = (case fails env Commit_add of
       Some e \<Rightarrow> Inl (e, s)
     | None \<Rightarrow> Inr (emit Commit (s\<lparr>committed := work s\<rparr>)))"

definition rollback :: "'e session \<Rightarrow> 'e session" where
  "rollback s = emit Rollback (s\<lparr>work := committed s\<rparr>)"

text \<open>The connection as \<^verbatim>\<open>_get_connection\<close> hands it out: no transaction is open, nothing is
  counted or printed yet.\<close>

definition get_connection :: "'e db \<Rightarrow> 'e session" where
  "get_connection d = \<lparr>committed = d, work = d, inserted_count = 0, calls = 0, events = []\<rparr>"

text \<open>\<^verbatim>\<open>add_documents\<close> (lines 97-157). The result is what the call returns or raises,
  with the final session. The function has no \<^verbatim>\<open>return\<close> with a value: it returns
  \<^verbatim>\<open>None\<close>.\<close>

definition add_documents :: "'e env \<Rightarrow> 'e db \<Rightarrow> Document list \<Rightarrow> (exn + pyval) \<times> 'e session" where
  "add_documents env d docs =
     (if docs = [] then (Inr PyNone, get_connection d)
      else
        (case fails env Connect_add of
           Some e \<Rightarrow> (Inl e, get_connection d)
         | None \<Rightarrow>
            (case (case insert_loop env docs (get_connection d) of
                     Inl es \<Rightarrow> Inl es
                   | Inr s \<Rightarrow> commit env s) of
               Inr s \<Rightarrow> (Inr PyNone, emit Close (emit (Successfully_added (inserted_count s)) s))
             | Inl (e, s) \<Rightarrow> (Inl e, emit Close (emit (Error_adding e) (rollback s))))))"

text \<open>The stores that calls of \<^verbatim>\<open>add_documents\<close> produce from the empty store, whatever the
  libraries do in each call.\<close>

inductive reachable :: "'e db \<Rightarrow> bool" where
  initial: "reachable empty_db"
| added: "reachable d \<Longrightarrow> reachable (committed (snd (add_documents env d docs)))"

subsection \<open>The read paths\<close>

text \<open>An entry of a result list: a dictionary with the keys \<^verbatim>\<open>source\<close>, \<^verbatim>\<open>content\<close>,
  \<^verbatim>\<open>metadata\<close> and, in vector results only, \<^verbatim>\<open>distance\<close> (\<^const>\<open>None\<close>: the key is absent).\<close>

record hit =
  hit_source :: "string option"
  hit_content :: "string option"
  hit_metadata :: pyval
  hit_distance :: "real option"

record search_response =
  results :: "hit list"
  search_strategy :: string

text \<open>\<^verbatim>\<open>json.loads(row[2]) if row[2] else {}\<close>: NULL and the empty string are falsy.\<close>

definition parse_metadata :: "'e env \<Rightarrow> string option \<Rightarrow> exn + pyval" where
  "parse_metadata env m =
     (case m of None \<Rightarrow> Inr (PyDict []) | Some t \<Rightarrow> if t = [] then Inr (PyDict []) else json_loads env t)"

text \<open>A Python int bound to a statement must fit SQLite's 64-bit INTEGER.\<close>

definition fits_int64 :: "int \<Rightarrow> bool" where
  "fits_int64 n \<longleftrightarrow> - (2 ^ 63) \<le> n \<and> n < 2 ^ 63"

text \<open>The statement of \<^verbatim>\<open>search_keyword\<close> (line 170), rows in table order.\<close>

definition select_keyword ::
  "'e env \<Rightarrow> 'e db \<Rightarrow> string \<Rightarrow> int \<Rightarrow> exn + (string option \<times> string option \<times> string option) list" where
  "select_keyword env d like_query limit =
     (if \<not> fits_int64 limit then Inl OverflowError
      else case fails env Select_keyword of
        Some e \<Rightarrow> Inl e
      | None \<Rightarrow>
          Inr (sql_limit limit
                 (map (\<lambda>r. (row_source r, row_content r, row_metadata r))
                    (filter (\<lambda>r. sql_like (row_content r) like_query
                                \<and> sql_length_gt (row_content r) 10
                                \<and> sql_ne (row_source r) ''Unknown'')
                       (documents d)))))"

fun format_keyword_rows ::
  "'e env \<Rightarrow> (string option \<times> string option \<times> string option) list \<Rightarrow> exn + hit list" where
  "format_keyword_rows env [] = Inr []"
| "format_keyword_rows env ((src, cont, md) # rows) =
     (case parse_metadata env md of
        Inl e \<Rightarrow> Inl e
      | Inr m \<Rightarrow>
         (case format_keyword_rows env rows of
            Inl e \<Rightarrow> Inl e
          | Inr formatted \<Rightarrow>
              Inr (\<lparr>hit_source = src, hit_content = cont, hit_metadata = m, hit_distance = None\<rparr>
                     # formatted)))"

text \<open>\<^verbatim>\<open>search_keyword\<close> (lines 159-188): the connection is opened outside the
  \<^verbatim>\<open>try\<close>; every exception inside it gives the empty list.\<close>

definition search_keyword :: "'e env \<Rightarrow> 'e db \<Rightarrow> string \<Rightarrow> int \<Rightarrow> exn + hit list" where
  "search_keyword env d query limit =
     (case fails env Connect_keyword of
        Some e \<Rightarrow> Inl e
      | None \<Rightarrow>
         (let like_query = ''%'' @ query @ ''%'' in
          case (case select_keyword env d like_query limit of
                  Inl e \<Rightarrow> Inl e
                | Inr rows \<Rightarrow> format_keyword_rows env rows) of
            Inl e \<Rightarrow> Inr []
          | Inr formatted_results \<Rightarrow> Inr formatted_results))"

text \<open>The statement of \<^verbatim>\<open>search\<close> (lines 209-230): the nearest-neighbour lookup of the
  index with \<^verbatim>\<open>LIMIT ?\<close> gives \<^verbatim>\<open>matches\<close>; these are joined to \<^verbatim>\<open>documents\<close> on the
  rowid and filtered, the rows are made distinct and ordered by distance (rows of equal
  distance stay in their order).\<close>

definition vector_join ::
  "'e db \<Rightarrow> (nat \<times> real) list \<Rightarrow> (string option \<times> string option \<times> string option \<times> real) list" where
  "vector_join d matches =
     concat (map (\<lambda>(rid, distance).
                    map (\<lambda>r. (row_source r, row_content r, row_metadata r, distance))
                      (filter (\<lambda>r. row_rowid r = rid
                                 \<and> row_content r \<noteq> None
                                 \<and> sql_length_gt (row_content r) 10
                                 \<and> sql_ne (row_source r) ''Unknown'')
                         (documents d)))
               matches)"

definition select_vector ::
  "'e env \<Rightarrow> 'e db \<Rightarrow> 'e \<Rightarrow> int
     \<Rightarrow> exn + (string option \<times> string option \<times> string option \<times> real) list" where
  "select_vector env d query_vector limit =
     (if \<not> fits_int64 limit then Inl OverflowError
      else case fails env Select_vector of
        Some e \<Rightarrow> Inl e
      | None \<Rightarrow>
         (case vec_knn env (vec_documents d) query_vector limit of
            Inl e \<Rightarrow> Inl e
          | Inr matches \<Rightarrow>
              Inr (sort_key (\<lambda>(src, cont, md, distance). distance)
                     (sql_distinct (vector_join d matches)))))"

text \<open>The loop that formats the vector rows (lines 236-246), with the set
  \<^verbatim>\<open>seen_content\<close>.\<close>

fun format_vector_rows ::
  "'e env \<Rightarrow> (string option \<times> string option \<times> string option \<times> real) list
     \<Rightarrow> string option set \<Rightarrow> exn + hit list" where
  "format_vector_rows env [] seen_content = Inr []"
| "format_vector_rows env ((src, cont, md, distance) # rows) seen_content =
     (if cont \<notin> seen_content then
        (case parse_metadata env md of
           Inl e \<Rightarrow> Inl e
         | Inr m \<Rightarrow>
            (case format_vector_rows env rows (insert cont seen_content) of
               Inl e \<Rightarrow> Inl e
             | Inr rest \<Rightarrow>
                 Inr (\<lparr>hit_source = src, hit_content = cont, hit_metadata = m,
                       hit_distance = Some distance\<rparr> # rest)))
      else format_vector_rows env rows seen_content)"

text \<open>The \<^verbatim>\<open>try\<close> block of \<^verbatim>\<open>search\<close> (lines 205-254): the list \<^verbatim>\<open>vector_results\<close>.\<close>

definition vector_results :: "'e env \<Rightarrow> 'e db \<Rightarrow> 'e \<Rightarrow> int \<Rightarrow> hit list" where
  "vector_results env d query_vector limit =
     (case (case select_vector env d query_vector limit of
              Inl e \<Rightarrow> Inl e
            | Inr rows \<Rightarrow> format_vector_rows env rows {}) of
        Inl e \<Rightarrow> []
      | Inr formatted \<Rightarrow> py_slice_to limit formatted)"

text \<open>\<^verbatim>\<open>search\<close> (lines 190-282). Distances are finite floats and \<^verbatim>\<open>0.65\<close> is the double
  nearest to 13/20; no float lies between the two, so comparing with the real 0.65 decides
  the same.\<close>

definition search :: "'e env \<Rightarrow> 'e db \<Rightarrow> string \<Rightarrow> int \<Rightarrow> exn + search_response" where
  "search env d query limit =
     (case embed_text env query of
        Inl e \<Rightarrow> Inl e
      | Inr query_vector \<Rightarrow>
         (case fails env Connect_vector of
            Some e \<Rightarrow> Inl e
          | None \<Rightarrow>
             (case vector_results env d query_vector limit of
                [] \<Rightarrow> Inr \<lparr>results = [], search_strategy = ''no_results''\<rparr>
              | first # others \<Rightarrow>
                 (case hit_distance first of
                    None \<Rightarrow> Inl KeyError
                  | Some top_distance \<Rightarrow>
                      if top_distance < 0.65 then
                        Inr \<lparr>results = first # others, search_strategy = ''strong_match''\<rparr>
                      else
                        (case search_keyword env d query limit of
                           Inl e \<Rightarrow> Inl e
                         | Inr keyword_results \<Rightarrow>
                             if keyword_results \<noteq> [] then
                               Inr \<lparr>results = keyword_results, search_strategy = ''keyword''\<rparr>
                             else
                               Inr \<lparr>results = first # others,
                                    search_strategy = ''weak_match''\<rparr>)))))"

subsection \<open>Notions of the specification\<close>

text \<open>The admission rules in the words of the specification (section 4.1): evaluated in
  order, the first match wins.\<close>

datatype reason = Too_short | Unknown_source

datatype decision = Keep | Drop reason

definition admit :: "Document \<Rightarrow> decision" where
  "admit candidate =
     (if length (py_strip (content candidate)) < 10 then Drop Too_short
      else if source candidate = ''Unknown'' then Drop Unknown_source
      else Keep)"

text \<open>The outcome of the loop without what it printed.\<close>

definition mute :: "(exn \<times> 'e session) + 'e session \<Rightarrow> (exn \<times> 'e session) + 'e session" where
  "mute r = (case r of Inl (e, s) \<Rightarrow> Inl (e, s\<lparr>events := []\<rparr>) | Inr s \<Rightarrow> Inr (s\<lparr>events := []\<rparr>))"

text \<open>The filters both read statements apply to a row: length above 10 and a source other than
  "Unknown" (NULL fails both).\<close>

definition readable :: "string option \<Rightarrow> string option \<Rightarrow> bool" where
  "readable src cont \<longleftrightarrow> sql_length_gt cont 10 \<and> sql_ne src ''Unknown''"

text \<open>The two tables list the same rowids, each once.\<close>

definition paired :: "'e db \<Rightarrow> bool" where
  "paired d \<longleftrightarrow> distinct (map row_rowid (documents d))
     \<and> map row_rowid (documents d) = map fst (vec_documents d)"

text \<open>"The content contains the query as a case-insensitive substring", in the words of the
  specification (sections 4.4 and 4.5); case is folded as \<^verbatim>\<open>LIKE\<close> folds it.\<close>

fun ci_prefix :: "string \<Rightarrow> string \<Rightarrow> bool" where
  "ci_prefix [] s = True"
| "ci_prefix (q # qs) [] = False"
| "ci_prefix (q # qs) (c # cs) = (sql_lower q = sql_lower c \<and> ci_prefix qs cs)"

fun contains_ci :: "string \<Rightarrow> string \<Rightarrow> bool" where
  "contains_ci q [] = (q = [])"
| "contains_ci q (c # cs) = (ci_prefix q (c # cs) \<or> contains_ci q cs)"

subsection \<open>A small store and library for the examples\<close>

text \<open>Embeddings are numbers: thirty times the length of the text; the distance of two
  embeddings is a hundredth of their difference. The lookup returns the nearest first.\<close>

definition demo_knn :: "(nat \<times> nat) list \<Rightarrow> nat \<Rightarrow> int \<Rightarrow> exn + (nat \<times> real) list" where
  "demo_knn table q k =
     (if k < 0 then Inl OperationalError
      else Inr (take (nat k)
             (sort_key snd (map (\<lambda>(rid, e). (rid, real (if e \<le> q then q - e else e - q) / 100)) table))))"

definition demo_env :: "nat env" where
  "demo_env = \<lparr>embed_text = (\<lambda>t. Inr (30 * length t)),
                uuid4 = (\<lambda>k. ''id-'' @ replicate k (CHR ''i'')),
                json_dumps = (\<lambda>m. Inr ''{}''),
                json_loads = (\<lambda>t. Inr (PyDict [])),
                vec_knn = demo_knn,
                fails = (\<lambda>call. None)\<rparr>"

text \<open>A store with three rows that must not be read (an unknown source, a NULL content, a
  content of ten characters) and two rows with the same content.\<close>

definition demo_store :: "nat db" where
  "demo_store =
     \<lparr>documents =
        [\<lparr>row_rowid = 1, row_id = ''a'', row_source = Some ''slack'',
          row_content = Some ''Quarterly roadmap notes'', row_metadata = Some ''{}''\<rparr>,
         \<lparr>row_rowid = 2, row_id = ''b'', row_source = Some ''Unknown'',
          row_content = Some ''Quarterly roadmap draft'', row_metadata = Some ''{}''\<rparr>,
         \<lparr>row_rowid = 3, row_id = ''c'', row_source = Some ''slack'',
          row_content = None, row_metadata = Some ''{}''\<rparr>,
         \<lparr>row_rowid = 4, row_id = ''d'', row_source = Some ''slack'',
          row_content = Some ''roadmap ok'', row_metadata = None\<rparr>,
         \<lparr>row_rowid = 5, row_id = ''e'', row_source = Some ''github'',
          row_content = Some ''Quarterly roadmap notes'', row_metadata = Some ''{}''\<rparr>],
      vec_documents = [(1, 226), (2, 226), (3, 203), (4, 207), (5, 243)]\<rparr>"

definition demo_hit :: "string \<Rightarrow> real option \<Rightarrow> hit" where
  "demo_hit src distance = \<lparr>hit_source = Some src, hit_content = Some ''Quarterly roadmap notes'',
      hit_metadata = PyDict [], hit_distance = distance\<rparr>"

definition ten_doc :: Document where
  "ten_doc = \<lparr>source = ''slack'', content = ''roadmap ok'', metadata = []\<rparr>"

text \<open>A library whose second \<^verbatim>\<open>INSERT INTO documents\<close> of a call fails.\<close>

definition faulty_env :: "nat env" where
  "faulty_env = demo_env\<lparr>fails := (\<lambda>call. if call = Insert_document 1 then Some OperationalError
                                         else None)\<rparr>"

text \<open>A library whose \<^verbatim>\<open>commit\<close> fails.\<close>

definition commit_fail_env :: "nat env" where
  "commit_fail_env = demo_env\<lparr>fails := (\<lambda>call. if call = Commit_add then Some OperationalError
                                              else None)\<rparr>"

text \<open>A library that cannot decode any metadata text, and one whose connection for
  \<^verbatim>\<open>search_keyword\<close> cannot be opened.\<close>

definition bad_json_env :: "nat env" where
  "bad_json_env = demo_env\<lparr>json_loads := (\<lambda>t. Inl JSONDecodeError)\<rparr>"

definition keyword_down_env :: "nat env" where
  "keyword_down_env = demo_env\<lparr>fails := (\<lambda>call. if call = Connect_keyword
                                               then Some OperationalError else None)\<rparr>"

definition long_doc :: Document where
  "long_doc = \<lparr>source = ''slack'', content = ''Quarterly roadmap notes'', metadata = []\<rparr>"

definition short_doc :: Document where
  "short_doc = \<lparr>source = ''slack'', content = '' Short '',
                  metadata = [(PyStr ''channel_name'', PyStr ''general'')]\<rparr>"

text \<open>The store after the batch of the three example documents.\<close>

definition demo_added :: "nat db" where
  "demo_added =
     \<lparr>documents =
        [\<lparr>row_rowid = 1, row_id = ''id-'', row_source = Some ''slack'',
          row_content = Some ''Quarterly roadmap notes'', row_metadata = Some ''{}''\<rparr>,
         \<lparr>row_rowid = 2, row_id = ''id-i'', row_source = Some ''slack'',
          row_content = Some ''roadmap ok'', row_metadata = Some ''{}''\<rparr>],
      vec_documents = [(1, 690), (2, 300)]\<rparr>"

section \<open>Basic facts\<close>

lemma get_connection_simps [simp]:
  "committed (get_connection d) = d" "work (get_connection d) = d"
  "inserted_count (get_connection d) = 0" "calls (get_connection d) = 0"
  "events (get_connection d) = []"
  by (simp_all add: get_connection_def)

lemma set_sql_distinct [simp]: "set (sql_distinct rows) = set rows"
  by (simp add: sql_distinct_def)

lemma emit_simps [simp]:
  "committed (emit ev s) = committed s" "work (emit ev s) = work s"
  "inserted_count (emit ev s) = inserted_count s" "calls (emit ev s) = calls s"
  "events (emit ev s) = events s @ [ev]"
  by (simp_all add: emit_def)

section \<open>The admission filter\<close>

lemma mute_store_candidate:
  "mute (store_candidate env doc (s\<lparr>events := evs\<rparr>)) = mute (store_candidate env doc s)"
  by (simp add: store_candidate_def mute_def Let_def split: sum.splits option.splits)

lemma mute_loop_body:
  "mute (loop_body env doc (s\<lparr>events := evs\<rparr>)) = mute (loop_body env doc s)"
  by (simp add: loop_body_def mute_store_candidate Let_def) (simp add: mute_def emit_def)

lemma mute_loop_body_cases:
  "mute (loop_body env doc s) = mute (loop_body env doc s') \<Longrightarrow>
   (\<exists>e t t'. loop_body env doc s = Inl (e, t) \<and> loop_body env doc s' = Inl (e, t')
       \<and> t\<lparr>events := []\<rparr> = t'\<lparr>events := []\<rparr>)
   \<or> (\<exists>t t'. loop_body env doc s = Inr t \<and> loop_body env doc s' = Inr t'
       \<and> t\<lparr>events := []\<rparr> = t'\<lparr>events := []\<rparr>)"
  by (auto simp: mute_def split: sum.splits prod.splits)

text \<open>What the loop does to the store does not depend on what was printed before.\<close>

lemma mute_insert_loop_events:
  "s\<lparr>events := []\<rparr> = s'\<lparr>events := []\<rparr> \<Longrightarrow>
   mute (insert_loop env docs s) = mute (insert_loop env docs s')"
proof (induction docs arbitrary: s s')
  case Nil
  then show ?case by (simp add: mute_def)
next
  case (Cons doc docs)
  have "mute (loop_body env doc s) = mute (loop_body env doc s')"
    using mute_loop_body [where s = s and evs = "[]" and env = env and doc = doc]
      mute_loop_body [where s = "s'" and evs = "[]" and env = env and doc = doc] Cons.prems
    by simp
  from mute_loop_body_cases [OF this] show ?case
  proof (elim disjE exE conjE)
    fix e t t'
    assume "loop_body env doc s = Inl (e, t)" "loop_body env doc s' = Inl (e, t')"
      "t\<lparr>events := []\<rparr> = t'\<lparr>events := []\<rparr>"
    then show ?thesis by (simp add: mute_def)
  next
    fix t t'
    assume "loop_body env doc s = Inr t" "loop_body env doc s' = Inr t'"
      "t\<lparr>events := []\<rparr> = t'\<lparr>events := []\<rparr>"
    then show ?thesis using Cons.IH [of t t'] by simp
  qed
qed

lemma dropped_candidate_step:
  "admit doc \<noteq> Keep \<Longrightarrow> \<exists>ev. loop_body env doc s = Inr (emit ev s)"
  by (auto simp: admit_def loop_body_def Let_def split: if_splits)

lemma insert_loop_filter:
  "mute (insert_loop env docs s) = mute (insert_loop env (filter (\<lambda>c. admit c = Keep) docs) s)"
proof (induction docs arbitrary: s)
  case Nil
  show ?case by simp
next
  case (Cons doc docs)
  show ?case
  proof (cases "admit doc = Keep")
    case True
    then show ?thesis using Cons.IH by (simp split: sum.splits)
  next
    case False
    then obtain ev where "loop_body env doc s = Inr (emit ev s)"
      using dropped_candidate_step by blast
    moreover have "mute (insert_loop env docs (emit ev s)) = mute (insert_loop env docs s)"
      by (rule mute_insert_loop_events) (simp add: emit_def)
    ultimately show ?thesis using False Cons.IH by simp
  qed
qed

text \<open>
  Claim C5. The quality filter of the loop body is the admission decision of the
  specification: a candidate whose stripped content is shorter than 10 is dropped as too short
  (whatever its source), otherwise a candidate with source "Unknown" is dropped, otherwise the
  candidate goes on to be stored. A drop only prints a line: the step returns normally with
  the store, the counters and the transaction as they were. The loop over a batch does to the
  store exactly what it does on the batch without the dropped candidates.
\<close>

theorem admission_first_match_and_skip:
  "(case admit doc of
      Drop Too_short \<Rightarrow>
        (\<exists>channel. loop_body env doc s =
           Inr (s\<lparr>events := events s
                  @ [Dropped_too_short channel (take 20 (py_strip (content doc)))]\<rparr>))
    | Drop Unknown_source \<Rightarrow>
        loop_body env doc s = Inr (s\<lparr>events := events s @ [Dropped_unknown_source]\<rparr>)
    | Keep \<Rightarrow> loop_body env doc s = store_candidate env doc s)
   \<and> mute (insert_loop env docs s)
       = mute (insert_loop env (filter (\<lambda>c. admit c = Keep) docs) s)"
proof
  show "case admit doc of
      Drop Too_short \<Rightarrow>
        (\<exists>channel. loop_body env doc s =
           Inr (s\<lparr>events := events s
                  @ [Dropped_too_short channel (take 20 (py_strip (content doc)))]\<rparr>))
    | Drop Unknown_source \<Rightarrow>
        loop_body env doc s = Inr (s\<lparr>events := events s @ [Dropped_unknown_source]\<rparr>)
    | Keep \<Rightarrow> loop_body env doc s = store_candidate env doc s"
    by (auto simp: admit_def loop_body_def emit_def Let_def)
  show "mute (insert_loop env docs s)
       = mute (insert_loop env (filter (\<lambda>c. admit c = Keep) docs) s)"
    by (rule insert_loop_filter)
qed

section \<open>The read paths apply the filters\<close>

lemma sql_length_le: "sql_length s \<le> length s"
  by (simp add: sql_length_def sql_cstr_def length_takeWhile_le)

lemma readable_iff:
  "readable src cont \<longleftrightarrow>
   (\<exists>s c. src = Some s \<and> s \<noteq> ''Unknown'' \<and> cont = Some c \<and> 10 < sql_length c)"
  by (auto simp: readable_def sql_length_gt_def sql_ne_def split: option.splits)

lemma set_sql_limit: "set (sql_limit limit rows) \<subseteq> set rows"
  by (auto simp: sql_limit_def dest: in_set_takeD)

lemma set_py_slice_to: "set (py_slice_to limit xs) \<subseteq> set xs"
  by (auto simp: py_slice_to_def dest: in_set_takeD)

lemma select_keyword_readable:
  assumes "select_keyword env d p limit = Inr rows" and "(src, cont, md) \<in> set rows"
  shows "readable src cont"
proof -
  let ?keep = "\<lambda>r. sql_like (row_content r) p \<and> sql_length_gt (row_content r) 10
                 \<and> sql_ne (row_source r) ''Unknown''"
  let ?all = "map (\<lambda>r. (row_source r, row_content r, row_metadata r)) (filter ?keep (documents d))"
  from assms(1) have "rows = sql_limit limit ?all"
    by (simp add: select_keyword_def split: if_splits option.splits)
  with assms(2) set_sql_limit [of limit ?all] have "(src, cont, md) \<in> set ?all" by blast
  then show ?thesis by (auto simp: readable_def)
qed

lemma format_keyword_rows_cols:
  "format_keyword_rows env rows = Inr hs \<Longrightarrow>
   map (\<lambda>h. (hit_source h, hit_content h)) hs = map (\<lambda>(src, cont, md). (src, cont)) rows"
  by (induction env rows arbitrary: hs rule: format_keyword_rows.induct)
     (auto split: sum.splits)

lemma format_keyword_rows_distance:
  "format_keyword_rows env rows = Inr hs \<Longrightarrow> h \<in> set hs \<Longrightarrow> hit_distance h = None"
  by (induction env rows arbitrary: hs rule: format_keyword_rows.induct)
     (auto split: sum.splits)

lemma search_keyword_readable:
  assumes "search_keyword env d q limit = Inr hs" and "h \<in> set hs"
  shows "readable (hit_source h) (hit_content h)"
proof -
  from assms obtain rows where sel: "select_keyword env d (''%'' @ q @ ''%'') limit = Inr rows"
    and fmt: "format_keyword_rows env rows = Inr hs"
    by (auto simp: search_keyword_def Let_def split: option.splits sum.splits)
  from format_keyword_rows_cols [OF fmt] assms(2)
  have "(hit_source h, hit_content h) \<in> (\<lambda>(src, cont, md). (src, cont)) ` set rows"
    by (metis (no_types, lifting) image_eqI list.set_map)
  then show ?thesis using select_keyword_readable [OF sel] by auto
qed

lemma in_vector_join:
  "row \<in> set (vector_join d matches) \<longleftrightarrow>
   (\<exists>rid distance r. (rid, distance) \<in> set matches \<and> r \<in> set (documents d) \<and> row_rowid r = rid
      \<and> row_content r \<noteq> None \<and> sql_length_gt (row_content r) 10 \<and> sql_ne (row_source r) ''Unknown''
      \<and> row = (row_source r, row_content r, row_metadata r, distance))"
  unfolding vector_join_def by (simp add: image_iff Bex_def) blast

lemma select_vector_rows:
  "select_vector env d qv limit = Inr rows \<Longrightarrow>
   \<exists>matches. rows = sort_key (\<lambda>(src, cont, md, distance). distance)
                      (sql_distinct (vector_join d matches))"
  by (auto simp: select_vector_def split: if_splits option.splits sum.splits)

lemma select_vector_readable:
  assumes "select_vector env d qv limit = Inr rows" and "(src, cont, md, dst) \<in> set rows"
  shows "readable src cont"
proof -
  from select_vector_rows [OF assms(1)] assms(2) obtain matches where
    "(src, cont, md, dst) \<in> set (vector_join d matches)" by auto
  then show ?thesis unfolding in_vector_join by (auto simp: readable_def)
qed

lemma format_vector_rows_from:
  "format_vector_rows env rows seen = Inr hs \<Longrightarrow> h \<in> set hs \<Longrightarrow>
   \<exists>md dst. (hit_source h, hit_content h, md, dst) \<in> set rows \<and> hit_distance h = Some dst"
proof (induction rows arbitrary: seen hs)
  case Nil
  then show ?case by simp
next
  case (Cons row rows)
  obtain src cont md dst where row: "row = (src, cont, md, dst)" by (cases row) auto
  show ?case
  proof (cases "cont \<in> seen")
    case True
    with Cons.prems row have "format_vector_rows env rows seen = Inr hs" by simp
    from Cons.IH [OF this Cons.prems(2)] show ?thesis by auto
  next
    case False
    with Cons.prems(1) row obtain m rest where
      rest: "format_vector_rows env rows (insert cont seen) = Inr rest"
      and hs: "hs = \<lparr>hit_source = src, hit_content = cont, hit_metadata = m, hit_distance = Some dst\<rparr> # rest"
      by (auto split: sum.splits)
    show ?thesis
    proof (cases "h \<in> set rest")
      case True
      from Cons.IH [OF rest this] show ?thesis by auto
    next
      case False
      with Cons.prems(2) hs row show ?thesis by auto
    qed
  qed
qed

lemma vector_results_cases:
  "vector_results env d qv limit = [] \<or>
   (\<exists>rows hs. select_vector env d qv limit = Inr rows \<and> format_vector_rows env rows {} = Inr hs
       \<and> vector_results env d qv limit = py_slice_to limit hs)"
proof (cases "select_vector env d qv limit")
  case (Inl e)
  then show ?thesis by (simp add: vector_results_def)
next
  case (Inr rows)
  then show ?thesis
    by (cases "format_vector_rows env rows {}") (simp_all add: vector_results_def)
qed

lemma vector_results_readable:
  assumes "h \<in> set (vector_results env d qv limit)"
  shows "readable (hit_source h) (hit_content h) \<and> hit_distance h \<noteq> None"
proof -
  from assms have "vector_results env d qv limit \<noteq> []" by force
  with vector_results_cases [of env d qv limit] obtain rows hs where
    sel: "select_vector env d qv limit = Inr rows"
    and fmt: "format_vector_rows env rows {} = Inr hs"
    and res: "vector_results env d qv limit = py_slice_to limit hs"
    by blast
  from assms res have "h \<in> set hs" using set_py_slice_to [of limit hs] by auto
  from format_vector_rows_from [OF fmt this] obtain md dst where
    row: "(hit_source h, hit_content h, md, dst) \<in> set rows" and dst: "hit_distance h = Some dst"
    by blast
  from select_vector_readable [OF sel row] dst show ?thesis by simp
qed

lemma search_results_cases:
  assumes "search env d q limit = Inr r"
  shows "\<exists>qv. embed_text env q = Inr qv \<and>
     (results r = [] \<or> results r = vector_results env d qv limit \<or> search_keyword env d q limit = Inr (results r))"
proof (cases "embed_text env q")
  case (Inl e)
  with assms show ?thesis by (simp add: search_def)
next
  case (Inr qv)
  show ?thesis
  proof (cases "vector_results env d qv limit")
    case Nil
    with assms Inr show ?thesis by (auto simp: search_def split: option.splits)
  next
    case (Cons first others)
    with assms Inr show ?thesis
      by (auto simp: search_def split: option.splits sum.splits if_splits)
  qed
qed


lemmas demo_simps = demo_env_def demo_store_def demo_hit_def demo_knn_def

lemmas sql_simps = sql_limit_def sql_like_def sql_length_gt_def sql_ne_def sql_length_def
  sql_cstr_def sql_lower_def sql_distinct_def fits_int64_def parse_metadata_def

lemma demo_keyword_roadmap:
  "search_keyword demo_env demo_store ''roadmap'' 5
     = Inr [demo_hit ''slack'' None, demo_hit ''github'' None]"
  by (simp add: search_keyword_def select_keyword_def sql_simps demo_simps)

lemma demo_vector_roadmap:
  "vector_results demo_env demo_store 210 5 = [demo_hit ''slack'' (Some (16 / 100))]"
  by (simp add: vector_results_def select_vector_def vector_join_def py_slice_to_def
      sql_simps demo_simps)

lemma demo_search_roadmap:
  "search demo_env demo_store ''roadmap'' 5 =
     Inr \<lparr>results = [demo_hit ''slack'' (Some (16 / 100))], search_strategy = ''strong_match''\<rparr>"
proof -
  have "embed_text demo_env ''roadmap'' = Inr 210" "fails demo_env Connect_vector = None"
    by (simp_all add: demo_env_def)
  then show ?thesis
    by (simp add: search_def demo_vector_roadmap) (simp add: demo_hit_def)
qed

text \<open>
  Claim C8. Whatever the store holds and whatever the libraries do, every entry that
  \<^verbatim>\<open>search_keyword\<close> or \<^verbatim>\<open>search\<close> returns has a source that is not NULL and not "Unknown"
  and a content that is not NULL and longer than 10 characters.
\<close>

theorem read_paths_reapply_filters:
  "(search_keyword env d q limit = Inr hs \<longrightarrow>
      (\<forall>h \<in> set hs. \<exists>src cont. hit_source h = Some src \<and> src \<noteq> ''Unknown''
                          \<and> hit_content h = Some cont \<and> 10 < length cont))
   \<and> (search env d q limit = Inr r \<longrightarrow>
      (\<forall>h \<in> set (results r). \<exists>src cont. hit_source h = Some src \<and> src \<noteq> ''Unknown''
                          \<and> hit_content h = Some cont \<and> 10 < length cont))"
proof (intro conjI impI ballI)
  fix h assume "search_keyword env d q limit = Inr hs" "h \<in> set hs"
  from search_keyword_readable [OF this] sql_length_le
  show "\<exists>src cont. hit_source h = Some src \<and> src \<noteq> ''Unknown''
          \<and> hit_content h = Some cont \<and> 10 < length cont"
    unfolding readable_iff by (meson less_le_trans)
next
  fix h assume r: "search env d q limit = Inr r" and h: "h \<in> set (results r)"
  from search_results_cases [OF r] h
  have "readable (hit_source h) (hit_content h)"
    using vector_results_readable search_keyword_readable by fastforce
  with sql_length_le
  show "\<exists>src cont. hit_source h = Some src \<and> src \<noteq> ''Unknown''
          \<and> hit_content h = Some cont \<and> 10 < length cont"
    unfolding readable_iff by (meson less_le_trans)
qed

text \<open>On the example store four rows contain "roadmap"; the row with the unknown source and
  the row of ten characters are not returned, nor is the row without content.\<close>

theorem read_paths_reapply_filters_witness:
  "search_keyword demo_env demo_store ''roadmap'' 5
       = Inr [demo_hit ''slack'' None, demo_hit ''github'' None]
   \<and> search demo_env demo_store ''roadmap'' 5 =
       Inr \<lparr>results = [demo_hit ''slack'' (Some (16 / 100))], search_strategy = ''strong_match''\<rparr>
   \<and> (\<exists>src cont. hit_source (demo_hit ''github'' None) = Some src \<and> src \<noteq> ''Unknown''
         \<and> hit_content (demo_hit ''github'' None) = Some cont \<and> 10 < length cont)
   \<and> (\<exists>src cont. hit_source (demo_hit ''slack'' (Some (16 / 100))) = Some src
         \<and> src \<noteq> ''Unknown''
         \<and> hit_content (demo_hit ''slack'' (Some (16 / 100))) = Some cont \<and> 10 < length cont)"
  using read_paths_reapply_filters [of demo_env demo_store "''roadmap''" 5
      "[demo_hit ''slack'' None, demo_hit ''github'' None]"
      "\<lparr>results = [demo_hit ''slack'' (Some (16 / 100))], search_strategy = ''strong_match''\<rparr>"]
    demo_keyword_roadmap demo_search_roadmap
  by simp

section \<open>A document of ten characters\<close>

lemma search_keyword_long:
  "search_keyword env d q limit = Inr hs \<Longrightarrow> h \<in> set hs \<Longrightarrow>
   \<exists>c. hit_content h = Some c \<and> 10 < length c"
  using search_keyword_readable [of env d q limit hs h] sql_length_le
  unfolding readable_iff by (meson less_le_trans)

lemma search_long:
  assumes "search env d q limit = Inr r" and "h \<in> set (results r)"
  shows "\<exists>c. hit_content h = Some c \<and> 10 < length c"
proof -
  from search_results_cases [OF assms(1)] assms(2)
  have "readable (hit_source h) (hit_content h)"
    using vector_results_readable search_keyword_readable by fastforce
  with sql_length_le show ?thesis unfolding readable_iff by (meson less_le_trans)
qed

lemma find_fresh_append:
  "\<forall>y \<in> set xs. \<not> P y \<Longrightarrow> P x \<Longrightarrow> find P (xs @ [x]) = Some x"
  by (induction xs) auto

lemma store_candidate_ok:
  assumes "embed_text env (content doc) = Inr v" and "json_dumps env (metadata doc) = Inr j"
    and "fails env (Insert_document (calls s)) = None"
    and "fails env (Select_rowid (calls s)) = None"
    and "fails env (Insert_vec (calls s)) = None"
    and "uuid4 env (calls s) \<notin> set (map row_id (documents (work s)))"
    and "next_rowid (documents (work s)) \<notin> set (map fst (vec_documents (work s)))"
  shows "store_candidate env doc s =
     Inr (s\<lparr>calls := Suc (calls s),
            work := \<lparr>documents = documents (work s) @
                        [\<lparr>row_rowid = next_rowid (documents (work s)), row_id = uuid4 env (calls s),
                          row_source = Some (source doc), row_content = Some (content doc),
                          row_metadata = Some j\<rparr>],
                     vec_documents = vec_documents (work s) @ [(next_rowid (documents (work s)), v)]\<rparr>,
            inserted_count := Suc (inserted_count s)\<rparr>)"
proof -
  let ?new = "\<lparr>row_rowid = next_rowid (documents (work s)), row_id = uuid4 env (calls s),
                row_source = Some (source doc), row_content = Some (content doc),
                row_metadata = Some j\<rparr>"
  have "find (\<lambda>r. row_id r = uuid4 env (calls s)) (documents (work s) @ [?new]) = Some ?new"
    using assms(6) by (intro find_fresh_append) (auto simp: image_iff)
  with assms show ?thesis
    by (simp add: store_candidate_def insert_document_def select_rowid_def insert_vec_def Let_def)
qed

text \<open>
  Claim C10. A candidate whose content has exactly 10 characters, none of them leading or
  trailing whitespace, and whose source is not "Unknown" passes the quality filter: with
  working libraries \<^verbatim>\<open>add_documents\<close> stores and commits it. No call of \<^verbatim>\<open>search_keyword\<close>
  or \<^verbatim>\<open>search\<close>, on any store, returns an entry with that content: both statements ask for
  a length above 10.
\<close>

theorem ten_characters_stored_never_returned:
  assumes "length (content doc) = 10" and "py_strip (content doc) = content doc"
    and "source doc \<noteq> ''Unknown''"
    and "embed_text env (content doc) = Inr v" and "json_dumps env (metadata doc) = Inr j"
    and "\<forall>call. fails env call = None"
    and "uuid4 env 0 \<notin> set (map row_id (documents d))"
    and "next_rowid (documents d) \<notin> set (map fst (vec_documents d))"
  shows "fst (add_documents env d [doc]) = Inr PyNone
    \<and> (\<exists>row \<in> set (documents (committed (snd (add_documents env d [doc])))).
          row_source row = Some (source doc) \<and> row_content row = Some (content doc))
    \<and> (\<forall>env' d' q limit hs. search_keyword (env' :: 'f env) d' q limit = Inr hs
          \<longrightarrow> Some (content doc) \<notin> hit_content ` set hs)
    \<and> (\<forall>env' d' q limit r. search (env' :: 'f env) d' q limit = Inr r
          \<longrightarrow> Some (content doc) \<notin> hit_content ` set (results r))"
proof (intro conjI allI impI)
  let ?s0 = "get_connection d"
  have body: "loop_body env doc ?s0 = store_candidate env doc ?s0"
    using assms(1-3) by (simp add: loop_body_def Let_def)
  have stored: "store_candidate env doc ?s0 =
     Inr (?s0\<lparr>calls := Suc 0,
            work := \<lparr>documents = documents d @
                        [\<lparr>row_rowid = next_rowid (documents d), row_id = uuid4 env 0,
                          row_source = Some (source doc), row_content = Some (content doc),
                          row_metadata = Some j\<rparr>],
                     vec_documents = vec_documents d @ [(next_rowid (documents d), v)]\<rparr>,
            inserted_count := Suc 0\<rparr>)"
    using store_candidate_ok [of env doc v j ?s0] assms(4-8) by simp
  show "fst (add_documents env d [doc]) = Inr PyNone"
    using assms(6) by (simp add: add_documents_def body stored commit_def)
  show "\<exists>row \<in> set (documents (committed (snd (add_documents env d [doc])))).
          row_source row = Some (source doc) \<and> row_content row = Some (content doc)"
    using assms(6) by (simp add: add_documents_def body stored commit_def)
next
  fix env' :: "'f env" and d' q limit hs
  assume "search_keyword env' d' q limit = Inr hs"
  from search_keyword_long [OF this] assms(1)
  show "Some (content doc) \<notin> hit_content ` set hs" by fastforce
next
  fix env' :: "'f env" and d' q limit r
  assume "search env' d' q limit = Inr r"
  from search_long [OF this] assms(1)
  show "Some (content doc) \<notin> hit_content ` set (results r)" by fastforce
qed

theorem ten_characters_stored_never_returned_witness:
  "length (content ten_doc) = 10 \<and> py_strip (content ten_doc) = content ten_doc
   \<and> source ten_doc \<noteq> ''Unknown''
   \<and> fst (add_documents demo_env empty_db [ten_doc]) = Inr PyNone
   \<and> (\<exists>row \<in> set (documents (committed (snd (add_documents demo_env empty_db [ten_doc])))).
         row_source row = Some ''slack'' \<and> row_content row = Some ''roadmap ok'')
   \<and> search_keyword demo_env demo_store ''roadmap'' 5
       = Inr [demo_hit ''slack'' None, demo_hit ''github'' None]
   \<and> Some ''roadmap ok'' \<notin> hit_content ` set [demo_hit ''slack'' None, demo_hit ''github'' None]
   \<and> search demo_env demo_store ''roadmap'' 5 =
       Inr \<lparr>results = [demo_hit ''slack'' (Some (16 / 100))], search_strategy = ''strong_match''\<rparr>
   \<and> Some ''roadmap ok'' \<notin> hit_content ` set [demo_hit ''slack'' (Some (16 / 100))]"
proof -
  have h1: "length (content ten_doc) = 10" by (simp add: ten_doc_def)
  have h2: "py_strip (content ten_doc) = content ten_doc"
    by (simp add: ten_doc_def py_strip_def py_isspace_def)
  have h3: "source ten_doc \<noteq> ''Unknown''" by (simp add: ten_doc_def)
  have h4: "embed_text demo_env (content ten_doc) = Inr 300" by (simp add: ten_doc_def demo_env_def)
  have h5: "json_dumps demo_env (metadata ten_doc) = Inr ''{}''" by (simp add: demo_env_def)
  have h6: "\<forall>call. fails demo_env call = None" by (simp add: demo_env_def)
  have h7: "uuid4 demo_env 0 \<notin> set (map row_id (documents (empty_db :: nat db)))"
    by (simp add: empty_db_def)
  have h8: "next_rowid (documents (empty_db :: nat db))
      \<notin> set (map fst (vec_documents (empty_db :: nat db)))"
    by (simp add: empty_db_def)
  note stored = ten_characters_stored_never_returned [where 'f = nat, OF h1 h2 h3 h4 h5 h6 h7 h8]
  from stored have "fst (add_documents demo_env empty_db [ten_doc]) = Inr PyNone" by blast
  moreover from stored
  have "\<exists>row \<in> set (documents (committed (snd (add_documents demo_env empty_db [ten_doc])))).
         row_source row = Some ''slack'' \<and> row_content row = Some ''roadmap ok''"
    by (simp add: ten_doc_def)
  moreover from stored demo_keyword_roadmap
  have "Some ''roadmap ok''
      \<notin> hit_content ` set [demo_hit ''slack'' None, demo_hit ''github'' None]"
    unfolding ten_doc_def by (metis Document.select_convs(2))
  moreover from stored demo_search_roadmap
  have "Some ''roadmap ok'' \<notin> hit_content ` set [demo_hit ''slack'' (Some (16 / 100))]"
    unfolding ten_doc_def by (metis Document.select_convs(2) search_response.select_convs(1))
  ultimately show ?thesis using h1 h2 h3 demo_keyword_roadmap demo_search_roadmap by blast
qed

section \<open>The vector result list\<close>




lemma format_vector_rows_sorted:
  "format_vector_rows env rows seen = Inr hs \<Longrightarrow>
   sorted (map (\<lambda>row. snd (snd (snd row))) rows) \<Longrightarrow>
   sorted (map (\<lambda>h. the (hit_distance h)) hs)"
proof (induction rows arbitrary: seen hs)
  case Nil
  then show ?case by simp
next
  case (Cons row rows)
  obtain src cont md dst where row: "row = (src, cont, md, dst)" by (cases row) auto
  from Cons.prems(2) have tail: "sorted (map (\<lambda>row. snd (snd (snd row))) rows)" by simp
  show ?case
  proof (cases "cont \<in> seen")
    case True
    with Cons.prems row have "format_vector_rows env rows seen = Inr hs" by simp
    from Cons.IH [OF this tail] show ?thesis .
  next
    case False
    with Cons.prems row obtain m rest where
      rest: "format_vector_rows env rows (insert cont seen) = Inr rest"
      and hs: "hs = \<lparr>hit_source = src, hit_content = cont, hit_metadata = m,
                     hit_distance = Some dst\<rparr> # rest"
      by (auto split: sum.splits)
    have "dst \<le> the (hit_distance h)" if "h \<in> set rest" for h
    proof -
      from format_vector_rows_from [OF rest that] obtain md' dst' where
        "(hit_source h, hit_content h, md', dst') \<in> set rows" "hit_distance h = Some dst'" by blast
      with Cons.prems(2) row show ?thesis by force
    qed
    with Cons.IH [OF rest tail] hs show ?thesis by simp
  qed
qed


lemma select_vector_sorted:
  assumes "select_vector env d qv limit = Inr rows"
  shows "sorted (map (\<lambda>row. snd (snd (snd row))) rows)"
proof -
  have "(\<lambda>row :: string option \<times> string option \<times> string option \<times> real. snd (snd (snd row)))
      = (\<lambda>(src, cont, md, distance). distance)"
    by (simp add: fun_eq_iff)
  then show ?thesis using select_vector_rows [OF assms] by auto
qed


lemma py_slice_to_take: "\<exists>n. py_slice_to limit xs = take n xs"
  by (auto simp: py_slice_to_def)



lemma vector_results_sorted:
  "sorted (map (\<lambda>h. the (hit_distance h)) (vector_results env d qv limit))"
proof -
  from vector_results_cases [of env d qv limit] show ?thesis
  proof
    assume "vector_results env d qv limit = []"
    then show ?thesis by simp
  next
    assume "\<exists>rows hs. select_vector env d qv limit = Inr rows
        \<and> format_vector_rows env rows {} = Inr hs
        \<and> vector_results env d qv limit = py_slice_to limit hs"
    then obtain rows hs n where sel: "select_vector env d qv limit = Inr rows"
      and fmt: "format_vector_rows env rows {} = Inr hs"
      and res: "vector_results env d qv limit = take n hs"
      using py_slice_to_take by metis
    from format_vector_rows_sorted [OF fmt select_vector_sorted [OF sel]] res show ?thesis
      by (simp add: take_map [symmetric] sorted_wrt_take)
  qed
qed




lemma demo_format_roadmap:
  "format_vector_rows demo_env
     [(Some ''slack'', Some ''Quarterly roadmap notes'', Some ''{}'', 16 / 100),
      (Some ''github'', Some ''Quarterly roadmap notes'', Some ''{}'', 33 / 100)] {}
   = Inr [demo_hit ''slack'' (Some (16 / 100))]"
  by (simp add: sql_simps demo_simps)



section \<open>The hybrid strategy\<close>

lemma search_keyword_returns:
  "fails env Connect_keyword = None \<Longrightarrow> \<exists>kw. search_keyword env d q limit = Inr kw"
  by (simp add: search_keyword_def Let_def split: sum.splits)

lemma search_keyword_no_distance:
  assumes "search_keyword env d q limit = Inr hs" and "h \<in> set hs"
  shows "hit_distance h = None"
proof (cases "select_keyword env d (''%'' @ q @ ''%'') limit")
  case (Inl e)
  with assms show ?thesis by (simp add: search_keyword_def split: option.splits)
next
  case (Inr rows)
  show ?thesis
  proof (cases "format_keyword_rows env rows")
    case (Inl e)
    with Inr assms show ?thesis by (simp add: search_keyword_def split: option.splits)
  next
    case fmt: (Inr formatted)
    with Inr assms have "hs = formatted" by (simp add: search_keyword_def split: option.splits)
    with format_keyword_rows_distance [OF fmt] assms(2) show ?thesis by simp
  qed
qed

lemma vector_results_closest_first:
  assumes "vector_results env d qv limit = first # others"
  shows "\<exists>top. hit_distance first = Some top
           \<and> (\<forall>h \<in> set others. \<exists>dh. hit_distance h = Some dh \<and> top \<le> dh)"
proof -
  have some: "\<exists>dh. hit_distance h = Some dh" if "h \<in> set (first # others)" for h
    using vector_results_readable [of h env d qv limit] that assms by auto
  then obtain top where top: "hit_distance first = Some top" by auto
  from vector_results_sorted [of env d qv limit] assms
  have "\<forall>h \<in> set others. the (hit_distance first) \<le> the (hit_distance h)" by simp
  with top some show ?thesis by fastforce
qed

lemma demo_vector_far:
  "vector_results demo_env demo_store 150 5 = [demo_hit ''slack'' (Some (76 / 100))]"
  by (simp add: vector_results_def select_vector_def vector_join_def py_slice_to_def
      sql_simps demo_simps)

lemma demo_keyword_notes:
  "search_keyword demo_env demo_store ''notes'' 5
     = Inr [demo_hit ''slack'' None, demo_hit ''github'' None]"
  by (simp add: search_keyword_def select_keyword_def sql_simps demo_simps)

lemma demo_keyword_zebra: "search_keyword demo_env demo_store ''zebra'' 5 = Inr []"
  by (simp add: search_keyword_def select_keyword_def sql_simps demo_simps)

lemma demo_vector_empty: "vector_results demo_env empty_db 210 5 = []"
  by (simp add: vector_results_def select_vector_def vector_join_def py_slice_to_def
      sql_simps demo_simps empty_db_def)


text \<open>
  Claim C1. When the embedding of the query and the two connections do not raise,
  \<^verbatim>\<open>search\<close> returns, for every limit, one of four outcomes, decided in this order:
  "no_results" with no results when the list \<^verbatim>\<open>vector_results\<close> is empty; otherwise
  "strong_match" with that list when the distance of its first entry (the smallest distance
  of the list) is below 0.65; otherwise "keyword" with the results of \<^verbatim>\<open>search_keyword\<close> when
  there are any, none of which has a distance; otherwise "weak_match" with \<^verbatim>\<open>vector_results\<close>.
\<close>

theorem search_outcome_order:
  assumes "embed_text env query = Inr qv"
    and "fails env Connect_vector = None" and "fails env Connect_keyword = None"
  shows "\<exists>kw. search_keyword env d query limit = Inr kw
     \<and> (\<forall>h \<in> set kw. hit_distance h = None)
     \<and> (case vector_results env d qv limit of
          [] \<Rightarrow> search env d query limit = Inr \<lparr>results = [], search_strategy = ''no_results''\<rparr>
        | first # others \<Rightarrow>
           (\<exists>top. hit_distance first = Some top
              \<and> (\<forall>h \<in> set others. \<exists>dh. hit_distance h = Some dh \<and> top \<le> dh)
              \<and> search env d query limit = Inr
                  (if top < 0.65 then
                     \<lparr>results = first # others, search_strategy = ''strong_match''\<rparr>
                   else if kw \<noteq> [] then \<lparr>results = kw, search_strategy = ''keyword''\<rparr>
                   else \<lparr>results = first # others, search_strategy = ''weak_match''\<rparr>)))"
proof -
  from search_keyword_returns [OF assms(3)] obtain kw where
    kw: "search_keyword env d query limit = Inr kw" by blast
  have nodist: "\<forall>h \<in> set kw. hit_distance h = None"
    using search_keyword_no_distance [OF kw] by blast
  have "case vector_results env d qv limit of
          [] \<Rightarrow> search env d query limit = Inr \<lparr>results = [], search_strategy = ''no_results''\<rparr>
        | first # others \<Rightarrow>
           (\<exists>top. hit_distance first = Some top
              \<and> (\<forall>h \<in> set others. \<exists>dh. hit_distance h = Some dh \<and> top \<le> dh)
              \<and> search env d query limit = Inr
                  (if top < 0.65 then
                     \<lparr>results = first # others, search_strategy = ''strong_match''\<rparr>
                   else if kw \<noteq> [] then \<lparr>results = kw, search_strategy = ''keyword''\<rparr>
                   else \<lparr>results = first # others, search_strategy = ''weak_match''\<rparr>))"
  proof (cases "vector_results env d qv limit")
    case Nil
    with assms show ?thesis by (simp add: search_def)
  next
    case (Cons first others)
    from vector_results_closest_first [OF Cons] obtain top where
      top: "hit_distance first = Some top"
      and least: "\<forall>h \<in> set others. \<exists>dh. hit_distance h = Some dh \<and> top \<le> dh" by blast
    have "search env d query limit = Inr
                  (if top < 0.65 then
                     \<lparr>results = first # others, search_strategy = ''strong_match''\<rparr>
                   else if kw \<noteq> [] then \<lparr>results = kw, search_strategy = ''keyword''\<rparr>
                   else \<lparr>results = first # others, search_strategy = ''weak_match''\<rparr>)"
      using assms Cons top kw by (simp add: search_def)
    with Cons top least show ?thesis by simp
  qed
  with kw nodist show ?thesis by blast
qed

text \<open>The four outcomes on the example store.\<close>

theorem search_outcome_order_witness:
  "embed_text demo_env ''roadmap'' = Inr 210
   \<and> fails demo_env Connect_vector = None \<and> fails demo_env Connect_keyword = None
   \<and> search demo_env empty_db ''roadmap'' 5 = Inr \<lparr>results = [], search_strategy = ''no_results''\<rparr>
   \<and> search demo_env demo_store ''roadmap'' 5 =
       Inr \<lparr>results = [demo_hit ''slack'' (Some (16 / 100))], search_strategy = ''strong_match''\<rparr>
   \<and> search demo_env demo_store ''notes'' 5 =
       Inr \<lparr>results = [demo_hit ''slack'' None, demo_hit ''github'' None],
            search_strategy = ''keyword''\<rparr>
   \<and> search demo_env demo_store ''zebra'' 5 =
       Inr \<lparr>results = [demo_hit ''slack'' (Some (76 / 100))], search_strategy = ''weak_match''\<rparr>"
proof -
  have h1: "embed_text demo_env ''roadmap'' = Inr 210" by (simp add: demo_env_def)
  have h1': "embed_text demo_env ''notes'' = Inr 150" "embed_text demo_env ''zebra'' = Inr 150"
    by (simp_all add: demo_env_def)
  have h2: "fails demo_env Connect_vector = None" by (simp add: demo_env_def)
  have h3: "fails demo_env Connect_keyword = None" by (simp add: demo_env_def)
  from search_outcome_order [OF h1 h2 h3, of empty_db 5]
  have none: "search demo_env empty_db ''roadmap'' 5
      = Inr \<lparr>results = [], search_strategy = ''no_results''\<rparr>"
    by (auto simp: demo_vector_empty)
  from search_outcome_order [OF h1 h2 h3, of demo_store 5]
  have strong: "search demo_env demo_store ''roadmap'' 5 =
       Inr \<lparr>results = [demo_hit ''slack'' (Some (16 / 100))], search_strategy = ''strong_match''\<rparr>"
    by (auto simp: demo_vector_roadmap demo_hit_def)
  from search_outcome_order [OF h1'(1) h2 h3, of demo_store 5]
  have keyword: "search demo_env demo_store ''notes'' 5 =
       Inr \<lparr>results = [demo_hit ''slack'' None, demo_hit ''github'' None],
            search_strategy = ''keyword''\<rparr>"
    by (auto simp: demo_vector_far demo_keyword_notes demo_hit_def)
  from search_outcome_order [OF h1'(2) h2 h3, of demo_store 5]
  have weak: "search demo_env demo_store ''zebra'' 5 =
       Inr \<lparr>results = [demo_hit ''slack'' (Some (76 / 100))], search_strategy = ''weak_match''\<rparr>"
    by (auto simp: demo_vector_far demo_keyword_zebra demo_hit_def)
  from h1 h2 h3 none strong keyword weak show ?thesis by simp
qed

section \<open>The write path\<close>

lemma fold_max_ge: "(m :: nat) \<le> fold max xs m"
  by (induction xs arbitrary: m) (auto intro: order_trans [OF max.cobounded2])

lemma fold_max_upper: "x \<in> set xs \<Longrightarrow> (x :: nat) \<le> fold max xs m"
proof (induction xs arbitrary: m)
  case Nil
  then show ?case by simp
next
  case (Cons y ys)
  show ?case
  proof (cases "x = y")
    case True
    have "max y m \<le> fold max ys (max y m)" by (rule fold_max_ge)
    with True show ?thesis by simp
  next
    case False
    with Cons show ?thesis by simp
  qed
qed

lemma next_rowid_fresh: "next_rowid rows \<notin> set (map row_rowid rows)"
proof
  assume "next_rowid rows \<in> set (map row_rowid rows)"
  from fold_max_upper [OF this, of 0] show False by (simp add: next_rowid_def)
qed

text \<open>A candidate is stored completely or the step raises.\<close>

lemma store_candidate_Inr:
  assumes "store_candidate env doc s = Inr s'"
  shows "\<exists>j v. s' = s\<lparr>calls := Suc (calls s),
            work := (work s)\<lparr>documents := documents (work s) @
                        [\<lparr>row_rowid = next_rowid (documents (work s)), row_id = uuid4 env (calls s),
                          row_source = Some (source doc), row_content = Some (content doc),
                          row_metadata = Some j\<rparr>],
                     vec_documents := vec_documents (work s) @ [(next_rowid (documents (work s)), v)]\<rparr>,
            inserted_count := Suc (inserted_count s)\<rparr>
         \<and> next_rowid (documents (work s)) \<notin> set (map fst (vec_documents (work s)))"
proof -
  from assms obtain v where v: "embed_text env (content doc) = Inr v"
    by (auto simp: store_candidate_def split: sum.splits)
  from assms v obtain j where j: "json_dumps env (metadata doc) = Inr j"
    by (auto simp: store_candidate_def Let_def split: sum.splits)
  let ?new = "\<lparr>row_rowid = next_rowid (documents (work s)), row_id = uuid4 env (calls s),
                row_source = Some (source doc), row_content = Some (content doc),
                row_metadata = Some j\<rparr>"
  let ?w1 = "(work s)\<lparr>documents := documents (work s) @ [?new]\<rparr>"
  from assms v j have ins: "insert_document env (calls s) (uuid4 env (calls s)) (source doc)
      (content doc) j (work s) = Inr ?w1"
    by (auto simp: store_candidate_def insert_document_def Let_def
        split: sum.splits option.splits if_splits)
  then have fresh: "uuid4 env (calls s) \<notin> set (map row_id (documents (work s)))"
    by (auto simp: insert_document_def split: option.splits if_splits)
  have found: "find (\<lambda>r. row_id r = uuid4 env (calls s)) (documents ?w1) = Some ?new"
    using fresh by (simp, intro find_fresh_append) (auto simp: image_iff)
  from assms v j ins have sel: "select_rowid env (calls s) (uuid4 env (calls s)) ?w1
      = Inr (Some (next_rowid (documents (work s))))"
    using found
    by (auto simp: store_candidate_def select_rowid_def Let_def split: sum.splits option.splits)
  from assms v j ins sel have vec: "insert_vec env (calls s) (next_rowid (documents (work s))) v ?w1
      = Inr (?w1\<lparr>vec_documents := vec_documents ?w1 @ [(next_rowid (documents (work s)), v)]\<rparr>)"
    by (auto simp: store_candidate_def insert_vec_def Let_def
        split: sum.splits option.splits if_splits)
  then have "next_rowid (documents (work s)) \<notin> set (map fst (vec_documents (work s)))"
    by (auto simp: insert_vec_def split: option.splits if_splits)
  moreover from assms v j ins sel vec have "s' = s\<lparr>calls := Suc (calls s),
            work := (work s)\<lparr>documents := documents (work s) @ [?new],
                     vec_documents := vec_documents (work s) @ [(next_rowid (documents (work s)), v)]\<rparr>,
            inserted_count := Suc (inserted_count s)\<rparr>"
    by (simp add: store_candidate_def Let_def)
  ultimately show ?thesis by blast
qed

lemma store_candidate_effect:
  assumes "store_candidate env doc s = Inr s'"
  shows "\<exists>row v. documents (work s') = documents (work s) @ [row]
           \<and> vec_documents (work s') = vec_documents (work s) @ [(row_rowid row, v)]
           \<and> row_rowid row = next_rowid (documents (work s))
           \<and> row_rowid row \<notin> set (map fst (vec_documents (work s)))
           \<and> row_source row = Some (source doc) \<and> row_content row = Some (content doc)"
    and "committed s' = committed s" and "events s' = events s"
    and "inserted_count s' = Suc (inserted_count s)" and "calls s' = Suc (calls s)"
  using store_candidate_Inr [OF assms] by auto

lemma store_candidate_Inl:
  "store_candidate env doc s = Inl (e, s') \<Longrightarrow> committed s' = committed s \<and> events s' = events s"
  by (auto simp: store_candidate_def Let_def split: sum.splits option.splits)

lemma dropped_candidate_event:
  assumes "admit doc \<noteq> Keep"
  shows "\<exists>ev. ev \<noteq> Commit \<and> loop_body env doc s = Inr (emit ev s)"
proof (cases "length (py_strip (content doc)) < 10")
  case True
  then have "loop_body env doc s = Inr (emit (Dropped_too_short
      (case map_of (metadata doc) (PyStr ''channel_name'') of None \<Rightarrow> PyStr ''Unknown'' | Some v \<Rightarrow> v)
      (take 20 (py_strip (content doc)))) s)"
    by (simp add: loop_body_def Let_def)
  then show ?thesis by blast
next
  case False
  with assms have "loop_body env doc s = Inr (emit Dropped_unknown_source s)"
    by (simp add: loop_body_def admit_def Let_def split: if_splits)
  then show ?thesis by blast
qed

lemma loop_body_committed:
  "case loop_body env doc s of
     Inl (e, s') \<Rightarrow> committed s' = committed s \<and> Commit \<notin> set (events s') - set (events s)
   | Inr s' \<Rightarrow> committed s' = committed s \<and> Commit \<notin> set (events s') - set (events s)"
proof (cases "admit doc = Keep")
  case True
  then have body: "loop_body env doc s = store_candidate env doc s"
    by (auto simp: admit_def loop_body_def Let_def split: if_splits)
  show ?thesis
  proof (cases "store_candidate env doc s")
    case (Inl es)
    with body store_candidate_Inl [of env doc s "fst es" "snd es"] show ?thesis
      by (cases es) simp
  next
    case (Inr s')
    with body store_candidate_effect(2,3) [OF Inr] show ?thesis by simp
  qed
next
  case False
  from dropped_candidate_event [OF this] obtain ev where
    "ev \<noteq> Commit" "loop_body env doc s = Inr (emit ev s)"
    by blast
  then show ?thesis by auto
qed

lemma insert_loop_committed:
  "case insert_loop env docs s of
     Inl (e, s') \<Rightarrow> committed s' = committed s \<and> Commit \<notin> set (events s') - set (events s)
   | Inr s' \<Rightarrow> committed s' = committed s \<and> Commit \<notin> set (events s') - set (events s)"
proof (induction docs arbitrary: s)
  case Nil
  show ?case by simp
next
  case (Cons doc docs)
  show ?case
  proof (cases "loop_body env doc s")
    case (Inl es)
    with loop_body_committed [where env = env and doc = doc and s = s] show ?thesis
      by (cases es) simp
  next
    case (Inr s1)
    with loop_body_committed [where env = env and doc = doc and s = s] Cons.IH [of s1]
    show ?thesis
      by (auto split: sum.splits)
  qed
qed

lemma loop_body_effect:
  assumes "loop_body env doc s = Inr s'"
  shows "\<exists>nd nv. documents (work s') = documents (work s) @ nd
           \<and> vec_documents (work s') = vec_documents (work s) @ nv
           \<and> map row_rowid nd = map fst nv
           \<and> map row_content nd = map (\<lambda>c. Some (content c)) (filter (\<lambda>c. admit c = Keep) [doc])
           \<and> inserted_count s' = inserted_count s + length nd
           \<and> (paired (work s) \<longrightarrow> paired (work s'))"
proof (cases "admit doc = Keep")
  case True
  then have "loop_body env doc s = store_candidate env doc s"
    by (auto simp: admit_def loop_body_def Let_def split: if_splits)
  with assms have st: "store_candidate env doc s = Inr s'" by simp
  from store_candidate_effect(1) [OF st] obtain row v where
    row: "documents (work s') = documents (work s) @ [row]"
    "vec_documents (work s') = vec_documents (work s) @ [(row_rowid row, v)]"
    "row_rowid row = next_rowid (documents (work s))"
    "row_content row = Some (content doc)"
    by blast
  have "paired (work s')" if p: "paired (work s)"
  proof -
    from p have d: "distinct (map row_rowid (documents (work s)))"
      and e: "map row_rowid (documents (work s)) = map fst (vec_documents (work s))"
      unfolding paired_def by blast+
    have "distinct (map row_rowid (documents (work s')))"
      using d row(1,3) next_rowid_fresh [of "documents (work s)"] by simp
    moreover have "map row_rowid (documents (work s')) = map fst (vec_documents (work s'))"
      using e row(1,2) by simp
    ultimately show ?thesis unfolding paired_def by blast
  qed
  with row store_candidate_effect(4) [OF st] True show ?thesis
    by (intro exI [of _ "[row]"] exI [of _ "[(row_rowid row, v)]"]) simp
next
  case False
  from dropped_candidate_event [OF this, of env s] assms obtain ev where "s' = emit ev s" by auto
  with False show ?thesis by simp
qed

lemma insert_loop_effect:
  "insert_loop env docs s = Inr s' \<Longrightarrow>
   \<exists>nd nv. documents (work s') = documents (work s) @ nd
      \<and> vec_documents (work s') = vec_documents (work s) @ nv
      \<and> map row_rowid nd = map fst nv
      \<and> map row_content nd = map (\<lambda>c. Some (content c)) (filter (\<lambda>c. admit c = Keep) docs)
      \<and> inserted_count s' = inserted_count s + length nd
      \<and> (paired (work s) \<longrightarrow> paired (work s'))"
proof (induction docs arbitrary: s)
  case Nil
  then show ?case by simp
next
  case (Cons doc docs)
  from Cons.prems obtain s1 where s1: "loop_body env doc s = Inr s1"
    and rest: "insert_loop env docs s1 = Inr s'"
    by (auto split: sum.splits)
  from loop_body_effect [OF s1] obtain nd1 nv1 where 1:
    "documents (work s1) = documents (work s) @ nd1"
    "vec_documents (work s1) = vec_documents (work s) @ nv1"
    "map row_rowid nd1 = map fst nv1"
    "map row_content nd1 = map (\<lambda>c. Some (content c)) (filter (\<lambda>c. admit c = Keep) [doc])"
    "inserted_count s1 = inserted_count s + length nd1"
    "paired (work s) \<longrightarrow> paired (work s1)"
    by blast
  from Cons.IH [OF rest] obtain nd2 nv2 where 2:
    "documents (work s') = documents (work s1) @ nd2"
    "vec_documents (work s') = vec_documents (work s1) @ nv2"
    "map row_rowid nd2 = map fst nv2"
    "map row_content nd2 = map (\<lambda>c. Some (content c)) (filter (\<lambda>c. admit c = Keep) docs)"
    "inserted_count s' = inserted_count s1 + length nd2"
    "paired (work s1) \<longrightarrow> paired (work s')"
    by blast
  have "map row_content (nd1 @ nd2)
      = map (\<lambda>c. Some (content c)) (filter (\<lambda>c. admit c = Keep) (doc # docs))"
    using 1(4) 2(4) by (simp split: if_splits)
  with 1 2 show ?case
    by (intro exI [of _ "nd1 @ nd2"] exI [of _ "nv1 @ nv2"]) simp
qed

lemma add_documents_cases:
  obtains (empty) "docs = []" "add_documents env d docs = (Inr PyNone, get_connection d)"
  | (no_connection) e where "docs \<noteq> []" "fails env Connect_add = Some e"
      "add_documents env d docs = (Inl e, get_connection d)"
  | (loop_raised) e s where "docs \<noteq> []" "fails env Connect_add = None"
      "insert_loop env docs (get_connection d) = Inl (e, s)"
      "add_documents env d docs = (Inl e, emit Close (emit (Error_adding e) (rollback s)))"
  | (commit_raised) e s where "docs \<noteq> []" "fails env Connect_add = None"
      "insert_loop env docs (get_connection d) = Inr s" "fails env Commit_add = Some e"
      "add_documents env d docs = (Inl e, emit Close (emit (Error_adding e) (rollback s)))"
  | (committed) s where "docs \<noteq> []" "fails env Connect_add = None"
      "insert_loop env docs (get_connection d) = Inr s" "fails env Commit_add = None"
      "add_documents env d docs =
         (Inr PyNone, emit Close (emit (Successfully_added (inserted_count s))
                                    (emit Commit (s\<lparr>committed := work s\<rparr>))))"
proof (cases "docs = []")
  case True
  then show ?thesis using empty by (simp add: add_documents_def)
next
  case nonempty: False
  show ?thesis
  proof (cases "fails env Connect_add")
    case (Some e)
    with nonempty show ?thesis using no_connection by (simp add: add_documents_def)
  next
    case None
    show ?thesis
    proof (cases "insert_loop env docs (get_connection d)")
      case (Inl es)
      obtain e s where "es = (e, s)" by (cases es) auto
      with Inl nonempty None show ?thesis using loop_raised by (simp add: add_documents_def)
    next
      case (Inr s)
      show ?thesis
      proof (cases "fails env Commit_add")
        case (Some e)
        with Inr nonempty None show ?thesis using commit_raised
          by (simp add: add_documents_def commit_def)
      next
        case no_fault: None
        with Inr nonempty None show ?thesis using committed
          by (simp add: add_documents_def commit_def)
      qed
    qed
  qed
qed

lemma rollback_simps [simp]:
  "committed (rollback s) = committed s" "work (rollback s) = committed s"
  "events (rollback s) = events s @ [Rollback]"
  by (simp_all add: rollback_def)

lemma insert_loop_committed_Inr:
  "insert_loop env docs s = Inr s' \<Longrightarrow> committed s' = committed s"
  using insert_loop_committed [where env = env and docs = docs and s = s] by simp

lemma insert_loop_committed_Inl:
  "insert_loop env docs s = Inl (e, s') \<Longrightarrow> committed s' = committed s"
  using insert_loop_committed [where env = env and docs = docs and s = s] by simp

lemma add_documents_paired:
  assumes "paired d"
  shows "paired (committed (snd (add_documents env d docs)))"
proof (cases rule: add_documents_cases [of docs env d])
  case empty
  with assms show ?thesis by simp
next
  case (no_connection e)
  with assms show ?thesis by simp
next
  case (loop_raised e s)
  with assms insert_loop_committed_Inl [OF loop_raised(3)] show ?thesis by simp
next
  case (commit_raised e s)
  with assms insert_loop_committed_Inr [OF commit_raised(3)] show ?thesis by simp
next
  case (committed s)
  from insert_loop_effect [OF committed(3)] assms have "paired (work s)" by auto
  with committed show ?thesis by simp
qed

lemma reachable_paired: "reachable d \<Longrightarrow> paired d"
proof (induction rule: reachable.induct)
  case initial
  show ?case by (simp add: paired_def empty_db_def)
next
  case (added d env docs)
  then show ?case by (simp add: add_documents_paired)
qed

lemma paired_one_vector:
  assumes "paired d" and "r \<in> set (documents d)"
  shows "length (filter (\<lambda>v. fst v = row_rowid r) (vec_documents d)) = 1"
proof -
  from assms(1) have dist: "distinct (map fst (vec_documents d))"
    and eq: "map row_rowid (documents d) = map fst (vec_documents d)"
    unfolding paired_def by metis+
  from assms(2) eq have "row_rowid r \<in> set (map fst (vec_documents d))"
    by (metis image_eqI list.set_map)
  have "length (filter (\<lambda>v. fst v = row_rowid r) (vec_documents d))
      = length (filter (\<lambda>x. x = row_rowid r) (map fst (vec_documents d)))"
    by (simp add: filter_map o_def)
  also have "\<dots> = card ({x. x = row_rowid r} \<inter> set (map fst (vec_documents d)))"
    using dist by (rule distinct_length_filter)
  also have "{x. x = row_rowid r} \<inter> set (map fst (vec_documents d)) = {row_rowid r}"
    using \<open>row_rowid r \<in> set (map fst (vec_documents d))\<close> by auto
  finally show ?thesis by simp
qed

lemma paired_one_document:
  assumes "paired d" and "v \<in> set (vec_documents d)"
  shows "length (filter (\<lambda>r. row_rowid r = fst v) (documents d)) = 1"
proof -
  from assms(1) have dist: "distinct (map row_rowid (documents d))"
    and eq: "map row_rowid (documents d) = map fst (vec_documents d)"
    unfolding paired_def by metis+
  from assms(2) eq have "fst v \<in> set (map row_rowid (documents d))"
    by (metis image_eqI list.set_map)
  have "length (filter (\<lambda>r. row_rowid r = fst v) (documents d))
      = length (filter (\<lambda>x. x = fst v) (map row_rowid (documents d)))"
    by (simp add: filter_map o_def)
  also have "\<dots> = card ({x. x = fst v} \<inter> set (map row_rowid (documents d)))"
    using dist by (rule distinct_length_filter)
  also have "{x. x = fst v} \<inter> set (map row_rowid (documents d)) = {fst v}"
    using \<open>fst v \<in> set (map row_rowid (documents d))\<close> by auto
  finally show ?thesis by simp
qed

lemma add_documents_grows_together:
  "\<exists>nd nv. documents (committed (snd (add_documents env d docs))) = documents d @ nd
     \<and> vec_documents (committed (snd (add_documents env d docs))) = vec_documents d @ nv
     \<and> map row_rowid nd = map fst nv"
proof (cases rule: add_documents_cases [of docs env d])
  case empty
  then show ?thesis by simp
next
  case (no_connection e)
  then show ?thesis by simp
next
  case (loop_raised e s)
  with insert_loop_committed_Inl [OF loop_raised(3)] show ?thesis by simp
next
  case (commit_raised e s)
  with insert_loop_committed_Inr [OF commit_raised(3)] show ?thesis by simp
next
  case (committed s)
  from insert_loop_effect [OF committed(3)] obtain nd nv where
    "documents (work s) = documents d @ nd" "vec_documents (work s) = vec_documents d @ nv"
    "map row_rowid nd = map fst nv"
    by auto
  with committed show ?thesis by simp
qed

lemmas write_simps = add_documents_def loop_body_def store_candidate_def insert_document_def
  select_rowid_def insert_vec_def commit_def rollback_def emit_def get_connection_def next_rowid_def
  py_strip_def py_isspace_def Let_def

lemmas demo_docs = long_doc_def short_doc_def ten_doc_def

lemma demo_add_batch:
  "add_documents demo_env empty_db [long_doc, short_doc, ten_doc] =
     (Inr PyNone,
      \<lparr>committed = demo_added, work = demo_added, inserted_count = 2, calls = 2,
       events = [Dropped_too_short (PyStr ''general'') ''Short'', Commit, Successfully_added 2,
                 Close]\<rparr>)"
  by (simp add: write_simps demo_env_def empty_db_def demo_docs demo_added_def)

lemma faulty_add_batch:
  "add_documents faulty_env empty_db [long_doc, short_doc, ten_doc] =
     (Inl OperationalError,
      \<lparr>committed = empty_db, work = empty_db, inserted_count = 1, calls = 2,
       events = [Dropped_too_short (PyStr ''general'') ''Short'', Rollback,
                 Error_adding OperationalError, Close]\<rparr>)"
  by (simp add: write_simps faulty_env_def demo_env_def empty_db_def demo_docs)

text \<open>
  Claim C9. In every store reached from the empty store by calls of \<^verbatim>\<open>add_documents\<close>,
  every document row has exactly one entry of the vector index under its rowid and every
  entry of the index has exactly one document row: no orphan entry, no document without an
  entry. A call adds document rows and index entries together, with the same rowids in the same
  order: the store the call commits has both or neither.
\<close>

theorem reachable_one_vector_per_document:
  assumes "reachable d"
  shows "(\<forall>r \<in> set (documents d).
            length (filter (\<lambda>v. fst v = row_rowid r) (vec_documents d)) = 1)
       \<and> (\<forall>v \<in> set (vec_documents d).
            length (filter (\<lambda>r. row_rowid r = fst v) (documents d)) = 1)
       \<and> (\<forall>env docs. \<exists>nd nv.
            documents (committed (snd (add_documents env d docs))) = documents d @ nd
          \<and> vec_documents (committed (snd (add_documents env d docs))) = vec_documents d @ nv
          \<and> map row_rowid nd = map fst nv)"
proof (intro conjI ballI allI)
  from assms have p: "paired d" by (rule reachable_paired)
  show "length (filter (\<lambda>v. fst v = row_rowid r) (vec_documents d)) = 1"
    if "r \<in> set (documents d)" for r
    using p that by (rule paired_one_vector)
  show "length (filter (\<lambda>r. row_rowid r = fst v) (documents d)) = 1"
    if "v \<in> set (vec_documents d)" for v
    using p that by (rule paired_one_document)
  show "\<exists>nd nv. documents (committed (snd (add_documents env d docs))) = documents d @ nd
          \<and> vec_documents (committed (snd (add_documents env d docs))) = vec_documents d @ nv
          \<and> map row_rowid nd = map fst nv" for env docs
    by (rule add_documents_grows_together)
qed

theorem reachable_one_vector_per_document_witness:
  "reachable demo_added
   \<and> length (filter (\<lambda>v. fst v = 2) (vec_documents demo_added)) = 1
   \<and> length (filter (\<lambda>r. row_rowid r = 1) (documents demo_added)) = 1"
proof -
  have "reachable (committed (snd (add_documents demo_env (empty_db :: nat db)
          [long_doc, short_doc, ten_doc])))"
    by (intro reachable.intros)
  then have r: "reachable demo_added" by (simp add: demo_add_batch)
  from reachable_one_vector_per_document [OF r] show ?thesis
    using r by (simp add: demo_added_def)
qed

section \<open>The batch is one transaction\<close>

lemma insert_loop_append:
  "insert_loop env (pre @ rest) s =
     (case insert_loop env pre s of Inl es \<Rightarrow> Inl es | Inr s1 \<Rightarrow> insert_loop env rest s1)"
  by (induction pre arbitrary: s) (auto split: sum.splits)

lemma insert_loop_no_commit_Inr:
  "insert_loop env docs (get_connection d) = Inr s \<Longrightarrow> Commit \<notin> set (events s)"
  using insert_loop_committed [where env = env and docs = docs and s = "get_connection d"] by simp

lemma insert_loop_no_commit_Inl:
  "insert_loop env docs (get_connection d) = Inl (e, s) \<Longrightarrow> Commit \<notin> set (events s)"
  using insert_loop_committed [where env = env and docs = docs and s = "get_connection d"] by simp

lemma add_documents_raised:
  assumes "fst (add_documents env d docs) = Inl e"
  shows "committed (snd (add_documents env d docs)) = d
       \<and> Commit \<notin> set (events (snd (add_documents env d docs)))"
proof (cases rule: add_documents_cases [of docs env d])
  case empty
  with assms show ?thesis by simp
next
  case (no_connection e')
  then show ?thesis by simp
next
  case (loop_raised e' s)
  with insert_loop_committed_Inl [OF loop_raised(3)]
    insert_loop_no_commit_Inl [OF loop_raised(3)]
  show ?thesis by simp
next
  case (commit_raised e' s)
  with insert_loop_committed_Inr [OF commit_raised(3)]
    insert_loop_no_commit_Inr [OF commit_raised(3)]
  show ?thesis by simp
next
  case (committed s)
  with assms show ?thesis by simp
qed

lemma add_documents_step_raised:
  assumes "docs = pre @ doc # post" and "fails env Connect_add = None"
    and "insert_loop env pre (get_connection d) = Inr s1" and "loop_body env doc s1 = Inl (e, s2)"
  shows "add_documents env d docs = (Inl e, emit Close (emit (Error_adding e) (rollback s2)))
       \<and> committed (snd (add_documents env d docs)) = d"
proof -
  from assms(1,3,4) have loop: "insert_loop env docs (get_connection d) = Inl (e, s2)"
    by (simp add: insert_loop_append)
  from assms(1) have "docs \<noteq> []" by simp
  with loop assms(2) have "add_documents env d docs
      = (Inl e, emit Close (emit (Error_adding e) (rollback s2)))"
    by (simp add: add_documents_def)
  with insert_loop_committed_Inl [OF loop] show ?thesis by simp
qed

lemma add_documents_returned:
  assumes "fst (add_documents env d docs) = Inr v" and "docs \<noteq> []"
  shows "\<exists>s. insert_loop env docs (get_connection d) = Inr s
           \<and> add_documents env d docs =
               (Inr PyNone, emit Close (emit (Successfully_added (inserted_count s))
                                          (emit Commit (s\<lparr>committed := work s\<rparr>))))
           \<and> Commit \<notin> set (events s) \<and> committed s = d"
proof (cases rule: add_documents_cases [of docs env d])
  case empty
  with assms show ?thesis by simp
next
  case (no_connection e')
  with assms show ?thesis by simp
next
  case (loop_raised e' s)
  with assms show ?thesis by simp
next
  case (commit_raised e' s)
  with assms show ?thesis by simp
next
  case (committed s)
  with insert_loop_no_commit_Inr [OF committed(3)] insert_loop_committed_Inr [OF committed(3)]
  show ?thesis by simp
qed

lemma faulty_loop_prefix:
  "insert_loop faulty_env [long_doc, short_doc] (get_connection empty_db) =
     Inr \<lparr>committed = empty_db,
          work = \<lparr>documents =
                    [\<lparr>row_rowid = 1, row_id = ''id-'', row_source = Some ''slack'',
                      row_content = Some ''Quarterly roadmap notes'',
                      row_metadata = Some ''{}''\<rparr>],
                  vec_documents = [(1, 690)]\<rparr>,
          inserted_count = 1, calls = 1,
          events = [Dropped_too_short (PyStr ''general'') ''Short'']\<rparr>"
  by (simp add: write_simps faulty_env_def demo_env_def empty_db_def demo_docs)

lemma faulty_loop_step:
  "loop_body faulty_env ten_doc
     \<lparr>committed = empty_db,
      work = \<lparr>documents =
                [\<lparr>row_rowid = 1, row_id = ''id-'', row_source = Some ''slack'',
                  row_content = Some ''Quarterly roadmap notes'',
                  row_metadata = Some ''{}''\<rparr>],
              vec_documents = [(1, 690)]\<rparr>,
      inserted_count = 1, calls = 1,
      events = [Dropped_too_short (PyStr ''general'') ''Short'']\<rparr> =
   Inl (OperationalError,
     \<lparr>committed = empty_db,
      work = \<lparr>documents =
                [\<lparr>row_rowid = 1, row_id = ''id-'', row_source = Some ''slack'',
                  row_content = Some ''Quarterly roadmap notes'',
                  row_metadata = Some ''{}''\<rparr>],
              vec_documents = [(1, 690)]\<rparr>,
      inserted_count = 1, calls = 2,
      events = [Dropped_too_short (PyStr ''general'') ''Short'']\<rparr>)"
  by (simp add: write_simps faulty_env_def demo_env_def empty_db_def demo_docs)

text \<open>
  Claim C3 says that on success the transaction is committed exactly once, for every batch.
  On the empty batch the call returns at the guard in its first line: it opens no connection
  and commits nothing.
\<close>

theorem add_documents_empty_batch_counterexample:
  "fst (add_documents demo_env demo_added []) = Inr PyNone
   \<and> events (snd (add_documents demo_env demo_added [])) = []
   \<and> length (filter (\<lambda>ev. ev = Commit) (events (snd (add_documents demo_env demo_added []))))
       \<noteq> 1"
  by (simp add: add_documents_def)

text \<open>
  Claim C3, amended. When \<^verbatim>\<open>add_documents\<close> raises, the committed store is the store before
  the call and the connection never committed. When the step for one candidate of the batch
  raises (a failed insert among others) after the steps before it went through, the call rolls
  back, reports and raises that same exception. While the loop runs, after any number of
  candidates, the committed store is still the store before the call. When the call returns on
  a batch that is not empty, the loop went through all candidates without a commit, then the
  call commits once, reports the count and closes; the committed store is what the loop wrote.
  On the empty batch the call returns without a connection, a commit or a rollback. When the
  loop went through and the commit raises, the call rolls back, reports and raises that same
  exception, and the committed store is the store before the call. When the connection cannot
  be opened, the call raises that exception and has done nothing. When neither the
  connection, the loop nor the commit raises, the call returns.
\<close>

theorem add_documents_all_or_nothing:
  "(\<forall>e. fst (add_documents env d docs) = Inl e \<longrightarrow>
        committed (snd (add_documents env d docs)) = d
      \<and> Commit \<notin> set (events (snd (add_documents env d docs))))
   \<and> (\<forall>pre doc post s1 e s2.
        docs = pre @ doc # post \<and> fails env Connect_add = None
        \<and> insert_loop env pre (get_connection d) = Inr s1 \<and> loop_body env doc s1 = Inl (e, s2)
        \<longrightarrow> fst (add_documents env d docs) = Inl e
          \<and> events (snd (add_documents env d docs)) = events s2 @ [Rollback, Error_adding e, Close]
          \<and> committed (snd (add_documents env d docs)) = d)
   \<and> (\<forall>k. case insert_loop env (take k docs) (get_connection d) of
            Inl (e, s) \<Rightarrow> committed s = d
          | Inr s \<Rightarrow> committed s = d)
   \<and> (\<forall>v. fst (add_documents env d docs) = Inr v \<and> docs \<noteq> [] \<longrightarrow>
        (\<exists>s. insert_loop env docs (get_connection d) = Inr s
           \<and> Commit \<notin> set (events s)
           \<and> events (snd (add_documents env d docs))
               = events s @ [Commit, Successfully_added (inserted_count s), Close]
           \<and> committed (snd (add_documents env d docs)) = work s))
   \<and> (docs = [] \<longrightarrow> add_documents env d docs = (Inr PyNone, get_connection d))
   \<and> (\<forall>s e. docs \<noteq> [] \<and> fails env Connect_add = None
        \<and> insert_loop env docs (get_connection d) = Inr s \<and> fails env Commit_add = Some e
        \<longrightarrow> fst (add_documents env d docs) = Inl e
          \<and> events (snd (add_documents env d docs)) = events s @ [Rollback, Error_adding e, Close]
          \<and> committed (snd (add_documents env d docs)) = d)
   \<and> (\<forall>e. docs \<noteq> [] \<and> fails env Connect_add = Some e
        \<longrightarrow> add_documents env d docs = (Inl e, get_connection d))
   \<and> (\<forall>s. docs \<noteq> [] \<and> fails env Connect_add = None
        \<and> insert_loop env docs (get_connection d) = Inr s \<and> fails env Commit_add = None
        \<longrightarrow> fst (add_documents env d docs) = Inr PyNone
          \<and> events (snd (add_documents env d docs))
              = events s @ [Commit, Successfully_added (inserted_count s), Close]
          \<and> committed (snd (add_documents env d docs)) = work s)"
proof (intro conjI allI impI)
  assume "docs = []"
  then show "add_documents env d docs = (Inr PyNone, get_connection d)"
    by (simp add: add_documents_def)
next
  fix s
  assume "docs \<noteq> [] \<and> fails env Connect_add = None
        \<and> insert_loop env docs (get_connection d) = Inr s \<and> fails env Commit_add = None"
  then have eq: "add_documents env d docs =
      (Inr PyNone, emit Close (emit (Successfully_added (inserted_count s))
                                 (emit Commit (s\<lparr>committed := work s\<rparr>))))"
    by (simp add: add_documents_def commit_def)
  from eq show "fst (add_documents env d docs) = Inr PyNone"
    and "events (snd (add_documents env d docs))
          = events s @ [Commit, Successfully_added (inserted_count s), Close]"
    and "committed (snd (add_documents env d docs)) = work s"
    by simp_all
next
  fix s e
  assume "docs \<noteq> [] \<and> fails env Connect_add = None
        \<and> insert_loop env docs (get_connection d) = Inr s \<and> fails env Commit_add = Some e"
  then have loop: "insert_loop env docs (get_connection d) = Inr s"
    and eq: "add_documents env d docs
      = (Inl e, emit Close (emit (Error_adding e) (rollback s)))"
    by (simp_all add: add_documents_def commit_def)
  from eq show "fst (add_documents env d docs) = Inl e"
    and "events (snd (add_documents env d docs)) = events s @ [Rollback, Error_adding e, Close]"
    by simp_all
  from eq insert_loop_committed_Inr [OF loop]
  show "committed (snd (add_documents env d docs)) = d" by simp
next
  fix e assume "docs \<noteq> [] \<and> fails env Connect_add = Some e"
  then show "add_documents env d docs = (Inl e, get_connection d)"
    by (simp add: add_documents_def)
next
  fix e assume "fst (add_documents env d docs) = Inl e"
  from add_documents_raised [OF this]
  show "committed (snd (add_documents env d docs)) = d"
    and "Commit \<notin> set (events (snd (add_documents env d docs)))" by simp_all
next
  fix pre doc post s1 e s2
  assume "docs = pre @ doc # post \<and> fails env Connect_add = None
        \<and> insert_loop env pre (get_connection d) = Inr s1 \<and> loop_body env doc s1 = Inl (e, s2)"
  then have eq: "add_documents env d docs
      = (Inl e, emit Close (emit (Error_adding e) (rollback s2)))"
    and same: "committed (snd (add_documents env d docs)) = d"
    using add_documents_step_raised by blast+
  from eq show "fst (add_documents env d docs) = Inl e"
    and "events (snd (add_documents env d docs)) = events s2 @ [Rollback, Error_adding e, Close]"
    by simp_all
  from same show "committed (snd (add_documents env d docs)) = d" .
next
  fix k
  show "case insert_loop env (take k docs) (get_connection d) of
            Inl (e, s) \<Rightarrow> committed s = d
          | Inr s \<Rightarrow> committed s = d"
    using insert_loop_committed
      [where env = env and docs = "take k docs" and s = "get_connection d"]
    by (auto split: sum.splits)
next
  fix v assume "fst (add_documents env d docs) = Inr v \<and> docs \<noteq> []"
  then obtain s where "insert_loop env docs (get_connection d) = Inr s"
    "add_documents env d docs =
               (Inr PyNone, emit Close (emit (Successfully_added (inserted_count s))
                                          (emit Commit (s\<lparr>committed := work s\<rparr>))))"
    "Commit \<notin> set (events s)"
    using add_documents_returned by blast
  then show "\<exists>s. insert_loop env docs (get_connection d) = Inr s
           \<and> Commit \<notin> set (events s)
           \<and> events (snd (add_documents env d docs))
               = events s @ [Commit, Successfully_added (inserted_count s), Close]
           \<and> committed (snd (add_documents env d docs)) = work s"
    by simp
qed

lemma commit_fail_loop:
  "insert_loop commit_fail_env [ten_doc] (get_connection empty_db) =
     Inr \<lparr>committed = empty_db,
          work = \<lparr>documents =
                    [\<lparr>row_rowid = 1, row_id = ''id-'', row_source = Some ''slack'',
                      row_content = Some ''roadmap ok'', row_metadata = Some ''{}''\<rparr>],
                  vec_documents = [(1, 300)]\<rparr>,
          inserted_count = 1, calls = 1, events = []\<rparr>"
  by (simp add: write_simps commit_fail_env_def demo_env_def empty_db_def demo_docs)

lemma demo_loop_ten:
  "insert_loop demo_env [ten_doc] (get_connection empty_db) =
     Inr \<lparr>committed = empty_db,
          work = \<lparr>documents =
                    [\<lparr>row_rowid = 1, row_id = ''id-'', row_source = Some ''slack'',
                      row_content = Some ''roadmap ok'', row_metadata = Some ''{}''\<rparr>],
                  vec_documents = [(1, 300)]\<rparr>,
          inserted_count = 1, calls = 1, events = []\<rparr>"
  by (simp add: write_simps demo_env_def empty_db_def demo_docs)

text \<open>The second insert of the batch fails: nothing of the batch is committed. With a sound
  library the same batch is committed. A commit that fails leaves nothing of its batch.\<close>

theorem add_documents_all_or_nothing_witness:
  "fails faulty_env Connect_add = None
   \<and> fails faulty_env (Insert_document 1) = Some OperationalError
   \<and> fst (add_documents faulty_env empty_db [long_doc, short_doc, ten_doc]) = Inl OperationalError
   \<and> committed (snd (add_documents faulty_env empty_db [long_doc, short_doc, ten_doc])) = empty_db
   \<and> events (snd (add_documents faulty_env empty_db [long_doc, short_doc, ten_doc]))
       = [Dropped_too_short (PyStr ''general'') ''Short'', Rollback,
          Error_adding OperationalError, Close]
   \<and> fst (add_documents demo_env empty_db [long_doc, short_doc, ten_doc]) = Inr PyNone
   \<and> committed (snd (add_documents demo_env empty_db [long_doc, short_doc, ten_doc])) = demo_added
   \<and> events (snd (add_documents demo_env empty_db [long_doc, short_doc, ten_doc]))
       = [Dropped_too_short (PyStr ''general'') ''Short'', Commit, Successfully_added 2, Close]
   \<and> add_documents demo_env demo_added [] = (Inr PyNone, get_connection demo_added)
   \<and> fails commit_fail_env Connect_add = None
   \<and> fails commit_fail_env Commit_add = Some OperationalError
   \<and> fst (add_documents commit_fail_env empty_db [ten_doc]) = Inl OperationalError
   \<and> events (snd (add_documents commit_fail_env empty_db [ten_doc]))
       = [Rollback, Error_adding OperationalError, Close]
   \<and> committed (snd (add_documents commit_fail_env empty_db [ten_doc])) = empty_db
   \<and> fails demo_env Connect_add = None \<and> fails demo_env Commit_add = None
   \<and> fst (add_documents demo_env empty_db [ten_doc]) = Inr PyNone
   \<and> events (snd (add_documents demo_env empty_db [ten_doc]))
       = [Commit, Successfully_added 1, Close]"
proof -
  have ok: "fails demo_env Connect_add = None" "fails demo_env Commit_add = None"
    by (simp_all add: demo_env_def)
  have c: "fails commit_fail_env Connect_add = None"
    "fails commit_fail_env Commit_add = Some OperationalError"
    by (simp_all add: commit_fail_env_def)
  let ?s3 = "\<lparr>committed = empty_db,
      work = \<lparr>documents =
                [\<lparr>row_rowid = 1, row_id = ''id-'', row_source = Some ''slack'',
                  row_content = Some ''roadmap ok'', row_metadata = Some ''{}''\<rparr>],
              vec_documents = [(1, 300 :: nat)]\<rparr>,
      inserted_count = 1, calls = 1, events = []\<rparr>"
  have commit_hyp: "[ten_doc] \<noteq> [] \<and> fails commit_fail_env Connect_add = None
      \<and> insert_loop commit_fail_env [ten_doc] (get_connection empty_db) = Inr ?s3
      \<and> fails commit_fail_env Commit_add = Some OperationalError"
    using c commit_fail_loop by simp
  note commit_step = add_documents_all_or_nothing [of commit_fail_env empty_db "[ten_doc]",
      THEN conjunct2, THEN conjunct2, THEN conjunct2, THEN conjunct2, THEN conjunct2,
      THEN conjunct1, rule_format, OF commit_hyp]
  have ok_hyp: "[ten_doc] \<noteq> [] \<and> fails demo_env Connect_add = None
      \<and> insert_loop demo_env [ten_doc] (get_connection empty_db) = Inr ?s3
      \<and> fails demo_env Commit_add = None"
    using ok demo_loop_ten by simp
  note ok_step = add_documents_all_or_nothing [of demo_env empty_db "[ten_doc]",
      THEN conjunct2, THEN conjunct2, THEN conjunct2, THEN conjunct2, THEN conjunct2,
      THEN conjunct2, THEN conjunct2, rule_format, OF ok_hyp]
  have returned: "fst (add_documents demo_env empty_db [ten_doc]) = Inr PyNone
   \<and> events (snd (add_documents demo_env empty_db [ten_doc]))
       = [Commit, Successfully_added 1, Close]"
    using ok_step by simp
  have commit_failed: "fst (add_documents commit_fail_env empty_db [ten_doc]) = Inl OperationalError
   \<and> events (snd (add_documents commit_fail_env empty_db [ten_doc]))
       = [Rollback, Error_adding OperationalError, Close]
   \<and> committed (snd (add_documents commit_fail_env empty_db [ten_doc])) = empty_db"
    using commit_step by simp
  have f: "fails faulty_env Connect_add = None"
    "fails faulty_env (Insert_document 1) = Some OperationalError"
    by (simp_all add: faulty_env_def)
  let ?work = "\<lparr>documents =
                [\<lparr>row_rowid = 1, row_id = ''id-'', row_source = Some ''slack'',
                  row_content = Some ''Quarterly roadmap notes'',
                  row_metadata = Some ''{}''\<rparr>],
              vec_documents = [(1, 690 :: nat)]\<rparr>"
  let ?s1 = "\<lparr>committed = empty_db, work = ?work, inserted_count = 1, calls = 1,
      events = [Dropped_too_short (PyStr ''general'') ''Short'']\<rparr>"
  let ?s2 = "\<lparr>committed = empty_db, work = ?work, inserted_count = 1, calls = 2,
      events = [Dropped_too_short (PyStr ''general'') ''Short'']\<rparr>"
  have hyp: "[long_doc, short_doc, ten_doc] = [long_doc, short_doc] @ ten_doc # []
      \<and> fails faulty_env Connect_add = None
      \<and> insert_loop faulty_env [long_doc, short_doc] (get_connection empty_db) = Inr ?s1
      \<and> loop_body faulty_env ten_doc ?s1 = Inl (OperationalError, ?s2)"
    using f(1) faulty_loop_prefix faulty_loop_step by simp
  note step = add_documents_all_or_nothing [of faulty_env empty_db "[long_doc, short_doc, ten_doc]",
      THEN conjunct2, THEN conjunct1, rule_format, OF hyp]
  have "fst (add_documents faulty_env empty_db [long_doc, short_doc, ten_doc]) = Inl OperationalError
   \<and> events (snd (add_documents faulty_env empty_db [long_doc, short_doc, ten_doc]))
       = [Dropped_too_short (PyStr ''general'') ''Short'', Rollback,
          Error_adding OperationalError, Close]
   \<and> committed (snd (add_documents faulty_env empty_db [long_doc, short_doc, ten_doc])) = empty_db"
    using step by simp
  moreover from add_documents_all_or_nothing [of demo_env empty_db "[long_doc, short_doc, ten_doc]"]
  have "committed (snd (add_documents demo_env empty_db [long_doc, short_doc, ten_doc])) = demo_added
    \<and> fst (add_documents demo_env empty_db [long_doc, short_doc, ten_doc]) = Inr PyNone
    \<and> events (snd (add_documents demo_env empty_db [long_doc, short_doc, ten_doc]))
       = [Dropped_too_short (PyStr ''general'') ''Short'', Commit, Successfully_added 2, Close]"
    by (simp add: demo_add_batch)
  moreover from add_documents_all_or_nothing [of demo_env demo_added "[]"]
  have "add_documents demo_env demo_added [] = (Inr PyNone, get_connection demo_added)"
    by simp
  ultimately show ?thesis using f c commit_failed ok returned by simp
qed

section \<open>What the write path returns\<close>

text \<open>
  Claim C4 says that \<^verbatim>\<open>add_documents\<close> returns the count of the documents it inserted, also
  on an empty batch. It returns \<^verbatim>\<open>None\<close>: on a batch of which two candidates are inserted the
  result is not 2, and on the empty batch it is not 0.
\<close>

theorem add_documents_returns_none_counterexample:
  "fst (add_documents demo_env empty_db [long_doc, short_doc, ten_doc]) = Inr PyNone
   \<and> length (documents (committed (snd (add_documents demo_env empty_db
        [long_doc, short_doc, ten_doc])))) = 2
   \<and> fst (add_documents demo_env empty_db [long_doc, short_doc, ten_doc]) \<noteq> Inr (PyInt 2)
   \<and> fst (add_documents demo_env empty_db []) = Inr PyNone
   \<and> fst (add_documents demo_env empty_db []) \<noteq> Inr (PyInt 0)"
  by (simp add: demo_add_batch demo_added_def) (simp add: add_documents_def)

text \<open>
  Claim C4, amended. Whenever \<^verbatim>\<open>add_documents\<close> returns, it returns \<^verbatim>\<open>None\<close>. On the empty
  batch it does nothing at all. On any other batch it has committed and then printed, in its
  last line, the number of candidates that pass the admission filter; the committed store has
  gained exactly one document row and one index entry per such candidate, with the contents of
  these candidates in their order.
\<close>

theorem add_documents_reports_count:
  "fst (add_documents env d docs) = Inr v \<longrightarrow>
     v = PyNone
   \<and> (docs = [] \<longrightarrow> snd (add_documents env d docs) = get_connection d)
   \<and> (docs \<noteq> [] \<longrightarrow>
        (\<exists>printed nd nv.
           events (snd (add_documents env d docs))
             = printed @ [Commit, Successfully_added (length (filter (\<lambda>c. admit c = Keep) docs)),
                          Close]
         \<and> documents (committed (snd (add_documents env d docs))) = documents d @ nd
         \<and> vec_documents (committed (snd (add_documents env d docs))) = vec_documents d @ nv
         \<and> map row_content nd = map (\<lambda>c. Some (content c)) (filter (\<lambda>c. admit c = Keep) docs)
         \<and> length nv = length (filter (\<lambda>c. admit c = Keep) docs)))"
proof (intro impI conjI)
  assume ret: "fst (add_documents env d docs) = Inr v"
  show "v = PyNone"
    using ret by (cases rule: add_documents_cases [of docs env d]) auto
  show "snd (add_documents env d docs) = get_connection d" if "docs = []"
    using that by (simp add: add_documents_def)
  show "\<exists>printed nd nv.
           events (snd (add_documents env d docs))
             = printed @ [Commit, Successfully_added (length (filter (\<lambda>c. admit c = Keep) docs)),
                          Close]
         \<and> documents (committed (snd (add_documents env d docs))) = documents d @ nd
         \<and> vec_documents (committed (snd (add_documents env d docs))) = vec_documents d @ nv
         \<and> map row_content nd = map (\<lambda>c. Some (content c)) (filter (\<lambda>c. admit c = Keep) docs)
         \<and> length nv = length (filter (\<lambda>c. admit c = Keep) docs)"
    if "docs \<noteq> []"
  proof -
    from add_documents_returned [OF ret that] obtain s where
      loop: "insert_loop env docs (get_connection d) = Inr s"
      and res: "add_documents env d docs =
               (Inr PyNone, emit Close (emit (Successfully_added (inserted_count s))
                                          (emit Commit (s\<lparr>committed := work s\<rparr>))))"
      by blast
    from insert_loop_effect [OF loop] obtain nd nv where eff:
      "documents (work s) = documents d @ nd" "vec_documents (work s) = vec_documents d @ nv"
      "map row_rowid nd = map fst nv"
      "map row_content nd = map (\<lambda>c. Some (content c)) (filter (\<lambda>c. admit c = Keep) docs)"
      "inserted_count s = length nd"
      by auto
    from eff(4) have n: "length nd = length (filter (\<lambda>c. admit c = Keep) docs)"
      by (metis length_map)
    from eff(3) have "length nv = length nd" by (metis length_map)
    with res eff n show ?thesis
      by (intro exI [of _ "events s"] exI [of _ nd] exI [of _ nv]) simp
  qed
qed

theorem add_documents_reports_count_witness:
  "fst (add_documents demo_env empty_db [long_doc, short_doc, ten_doc]) = Inr PyNone
   \<and> [long_doc, short_doc, ten_doc] \<noteq> []
   \<and> filter (\<lambda>c. admit c = Keep) [long_doc, short_doc, ten_doc] = [long_doc, ten_doc]
   \<and> events (snd (add_documents demo_env empty_db [long_doc, short_doc, ten_doc]))
       = [Dropped_too_short (PyStr ''general'') ''Short'', Commit, Successfully_added 2, Close]
   \<and> length (documents (committed (snd (add_documents demo_env empty_db
        [long_doc, short_doc, ten_doc])))) = 2"
proof -
  have ret: "fst (add_documents demo_env empty_db [long_doc, short_doc, ten_doc]) = Inr PyNone"
    by (simp add: demo_add_batch)
  have kept: "filter (\<lambda>c. admit c = Keep) [long_doc, short_doc, ten_doc] = [long_doc, ten_doc]"
    by (simp add: admit_def demo_docs py_strip_def py_isspace_def)
  from add_documents_reports_count [of demo_env empty_db "[long_doc, short_doc, ten_doc]" PyNone]
    ret kept
  have "length (documents (committed (snd (add_documents demo_env empty_db
        [long_doc, short_doc, ten_doc])))) = 2"
    by (auto simp: empty_db_def)
  with ret kept show ?thesis by (simp add: demo_add_batch)
qed

section \<open>Keyword search\<close>

lemma like_percent_any: "like_match ''%'' s"
  by (induction s) simp_all

lemma like_literal_prefix:
  "CHR ''%'' \<notin> set q \<Longrightarrow> CHR ''_'' \<notin> set q \<Longrightarrow> like_match (q @ ''%'') s = ci_prefix q s"
proof (induction q arbitrary: s)
  case Nil
  show ?case using like_percent_any by simp
next
  case (Cons a q)
  then show ?case by (cases s) auto
qed

lemma like_contains:
  assumes "CHR ''%'' \<notin> set q" and "CHR ''_'' \<notin> set q"
  shows "like_match (''%'' @ q @ ''%'') s = contains_ci q s"
proof (induction s)
  case Nil
  have "like_match (q @ ''%'') [] = ci_prefix q []" using assms by (rule like_literal_prefix)
  moreover have "ci_prefix q [] = (q = [])" by (cases q) simp_all
  ultimately show ?case by simp
next
  case (Cons c s)
  have "like_match (q @ ''%'') (c # s) = ci_prefix q (c # s)"
    using assms by (rule like_literal_prefix)
  with Cons show ?case by simp
qed

lemma sql_cstr_id: "CHR 0x00 \<notin> set s \<Longrightarrow> sql_cstr s = s"
  by (auto simp: sql_cstr_def takeWhile_eq_all_conv)

lemma sql_like_substring:
  assumes "CHR ''%'' \<notin> set q" and "CHR ''_'' \<notin> set q" and "CHR 0x00 \<notin> set q"
  shows "sql_like (Some c) (''%'' @ q @ ''%'') = contains_ci q (sql_cstr c)"
proof -
  from assms(3) have "CHR 0x00 \<notin> set (''%'' @ q @ ''%'')" by simp
  then have "sql_cstr (''%'' @ q @ ''%'') = ''%'' @ q @ ''%''" by (rule sql_cstr_id)
  with like_contains [OF assms(1,2)] show ?thesis by (simp add: sql_like_def)
qed

lemma format_keyword_rows_total:
  "\<forall>row \<in> set rows. \<exists>m. parse_metadata env (snd (snd row)) = Inr m \<Longrightarrow>
   \<exists>hs. format_keyword_rows env rows = Inr hs"
proof (induction rows)
  case Nil
  show ?case by simp
next
  case (Cons row rows)
  obtain src cont md where row: "row = (src, cont, md)" by (cases row) auto
  from Cons.prems row obtain m where "parse_metadata env md = Inr m" by auto
  moreover from Cons obtain hs where "format_keyword_rows env rows = Inr hs" by auto
  ultimately show ?case using row by simp
qed

lemma select_keyword_rows:
  "select_keyword env d p limit = Inr rows \<Longrightarrow>
   rows = sql_limit limit (map (\<lambda>r. (row_source r, row_content r, row_metadata r))
            (filter (\<lambda>r. sql_like (row_content r) p \<and> readable (row_source r) (row_content r))
               (documents d)))"
  by (auto simp: select_keyword_def readable_def split: if_splits option.splits)

lemma select_keyword_ok:
  "fits_int64 limit \<Longrightarrow> fails env Select_keyword = None \<Longrightarrow>
   \<exists>rows. select_keyword env d p limit = Inr rows"
  by (simp add: select_keyword_def)

lemma search_keyword_Inr:
  assumes "search_keyword env d q limit = Inr hs"
  shows "hs = [] \<or> (\<exists>rows. select_keyword env d (''%'' @ q @ ''%'') limit = Inr rows
                       \<and> format_keyword_rows env rows = Inr hs)"
proof (cases "select_keyword env d (''%'' @ q @ ''%'') limit")
  case (Inl e)
  with assms show ?thesis by (auto simp: search_keyword_def split: option.splits)
next
  case (Inr rows)
  with assms show ?thesis
    by (cases "format_keyword_rows env rows") (auto simp: search_keyword_def split: option.splits)
qed

lemma length_sql_limit: "0 \<le> limit \<Longrightarrow> int (length (sql_limit limit rows)) \<le> limit"
  by (simp add: sql_limit_def)

lemma format_keyword_rows_length:
  "format_keyword_rows env rows = Inr hs \<Longrightarrow> length hs = length rows"
proof -
  assume "format_keyword_rows env rows = Inr hs"
  from format_keyword_rows_cols [OF this]
  have "length (map (\<lambda>h. (hit_source h, hit_content h)) hs)
      = length (map (\<lambda>(src, cont, md). (src, cont)) rows)"
    by (rule arg_cong)
  then show ?thesis by (simp only: length_map)
qed

lemma search_keyword_length:
  assumes "search_keyword env d q limit = Inr hs" and "0 \<le> limit"
  shows "int (length hs) \<le> limit"
proof -
  from search_keyword_Inr [OF assms(1)] show ?thesis
  proof
    assume "hs = []"
    with assms(2) show ?thesis by simp
  next
    assume "\<exists>rows. select_keyword env d (''%'' @ q @ ''%'') limit = Inr rows
                       \<and> format_keyword_rows env rows = Inr hs"
    then obtain rows where sel: "select_keyword env d (''%'' @ q @ ''%'') limit = Inr rows"
      and fmt: "format_keyword_rows env rows = Inr hs" by blast
    have "length hs = length rows" using fmt by (rule format_keyword_rows_length)
    also from select_keyword_rows [OF sel] obtain all_rows where
      "rows = sql_limit limit all_rows" by blast
    finally have "length hs = length (sql_limit limit all_rows)" .
    with length_sql_limit [OF assms(2), of all_rows] show ?thesis by simp
  qed
qed

lemma sql_limit_map: "sql_limit limit (map f rows) = map f (sql_limit limit rows)"
  by (simp add: sql_limit_def take_map)

lemma format_keyword_rows_entries:
  "format_keyword_rows env rows = Inr hs \<Longrightarrow>
   map (\<lambda>h. (hit_source h, hit_content h, Inr (hit_metadata h) :: exn + pyval, hit_distance h)) hs
   = map (\<lambda>row. (fst row, fst (snd row), parse_metadata env (snd (snd row)), None)) rows"
proof (induction rows arbitrary: hs)
  case Nil
  then show ?case by simp
next
  case (Cons row rows)
  obtain src cont md where row: "row = (src, cont, md)" by (cases row) auto
  from Cons.prems row obtain m rest where m: "parse_metadata env md = Inr m"
    and rest: "format_keyword_rows env rows = Inr rest"
    and hs: "hs = \<lparr>hit_source = src, hit_content = cont, hit_metadata = m,
                   hit_distance = None\<rparr> # rest"
    by (auto split: sum.splits)
  from Cons.IH [OF rest] row m hs show ?case by simp
qed

lemma format_keyword_rows_raises:
  "row \<in> set rows \<Longrightarrow> parse_metadata env (snd (snd row)) = Inl e \<Longrightarrow>
   \<exists>e'. format_keyword_rows env rows = Inl e'"
proof (induction rows)
  case Nil
  then show ?case by simp
next
  case (Cons first rows)
  obtain src cont md where first: "first = (src, cont, md)" by (cases first) auto
  show ?case
  proof (cases "parse_metadata env md")
    case (Inl e')
    with first show ?thesis by simp
  next
    case (Inr m)
    with Cons.prems first have "row \<in> set rows" by auto
    from Cons.IH [OF this Cons.prems(2)] obtain e' where "format_keyword_rows env rows = Inl e'"
      by blast
    with Inr first show ?thesis by simp
  qed
qed

lemma select_keyword_selected:
  "select_keyword env d p limit = Inr rows \<Longrightarrow>
   rows = map (\<lambda>r. (row_source r, row_content r, row_metadata r))
            (sql_limit limit
               (filter (\<lambda>r. sql_like (row_content r) p \<and> readable (row_source r) (row_content r))
                  (documents d)))"
  using select_keyword_rows [of env d p limit rows] by (simp add: sql_limit_map)

lemma search_keyword_statement_raises:
  assumes "fails env Connect_keyword = None"
    and "\<not> fits_int64 limit \<or> fails env Select_keyword \<noteq> None"
  shows "search_keyword env d q limit = Inr []"
proof -
  have "\<exists>e. select_keyword env d (''%'' @ q @ ''%'') limit = Inl e"
  proof (cases "fits_int64 limit")
    case False
    then show ?thesis by (simp add: select_keyword_def)
  next
    case True
    with assms(2) obtain e where "fails env Select_keyword = Some e" by auto
    with True show ?thesis by (simp add: select_keyword_def)
  qed
  then obtain e where "select_keyword env d (''%'' @ q @ ''%'') limit = Inl e" by blast
  with assms(1) show ?thesis by (simp add: search_keyword_def)
qed

lemma search_keyword_decode_raises:
  assumes "fails env Connect_keyword = None"
    and "r \<in> set (sql_limit limit
               (filter (\<lambda>r. sql_like (row_content r) (''%'' @ q @ ''%'')
                          \<and> readable (row_source r) (row_content r))
                  (documents d)))"
    and "parse_metadata env (row_metadata r) = Inl e"
  shows "search_keyword env d q limit = Inr []"
proof (cases "select_keyword env d (''%'' @ q @ ''%'') limit")
  case (Inl e')
  with assms(1) show ?thesis by (simp add: search_keyword_def)
next
  case (Inr rows)
  from select_keyword_selected [OF Inr] assms(2)
  have "(row_source r, row_content r, row_metadata r) \<in> set rows" by auto
  from format_keyword_rows_raises [OF this] assms(3) obtain e' where
    "format_keyword_rows env rows = Inl e'" by auto
  with Inr assms(1) show ?thesis by (simp add: search_keyword_def)
qed

lemma search_keyword_entry:
  assumes "search_keyword env d q limit = Inr hs" and "h \<in> set hs"
  shows "\<exists>r \<in> set (documents d). hit_source h = row_source r \<and> hit_content h = row_content r
           \<and> parse_metadata env (row_metadata r) = Inr (hit_metadata h)
           \<and> sql_like (row_content r) (''%'' @ q @ ''%'')
           \<and> readable (row_source r) (row_content r)"
proof -
  let ?keep = "\<lambda>r. sql_like (row_content r) (''%'' @ q @ ''%'')
                  \<and> readable (row_source r) (row_content r)"
  let ?sel = "sql_limit limit (filter ?keep (documents d))"
  from search_keyword_Inr [OF assms(1)] assms(2) obtain rows where
    sel: "select_keyword env d (''%'' @ q @ ''%'') limit = Inr rows"
    and fmt: "format_keyword_rows env rows = Inr hs" by auto
  from select_keyword_selected [OF sel]
  have rows: "rows = map (\<lambda>r. (row_source r, row_content r, row_metadata r)) ?sel" .
  have "(hit_source h, hit_content h, Inr (hit_metadata h) :: exn + pyval, hit_distance h)
      \<in> set (map (\<lambda>h. (hit_source h, hit_content h, Inr (hit_metadata h), hit_distance h)) hs)"
    using assms(2) by (simp add: image_iff) blast
  also have "\<dots> = set (map (\<lambda>row. (fst row, fst (snd row), parse_metadata env (snd (snd row)),
                                    None :: real option)) rows)"
    using format_keyword_rows_entries [OF fmt] by simp
  finally obtain r where r: "r \<in> set ?sel" and
    "hit_source h = row_source r" "hit_content h = row_content r"
    "parse_metadata env (row_metadata r) = Inr (hit_metadata h)"
    unfolding rows by auto
  moreover from r set_sql_limit [of limit "filter ?keep (documents d)"]
  have "r \<in> set (documents d)" "?keep r" by auto
  ultimately show ?thesis by blast
qed

lemma search_keyword_exact:
  assumes "fails env Connect_keyword = None" and "fails env Select_keyword = None"
    and "fits_int64 limit"
    and "\<forall>r \<in> set (sql_limit limit
               (filter (\<lambda>r. sql_like (row_content r) (''%'' @ q @ ''%'')
                          \<and> readable (row_source r) (row_content r))
                  (documents d))). \<exists>m. parse_metadata env (row_metadata r) = Inr m"
  shows "\<exists>found. search_keyword env d q limit = Inr found
     \<and> map (\<lambda>h. (hit_source h, hit_content h, Inr (hit_metadata h) :: exn + pyval,
                 hit_distance h)) found
       = map (\<lambda>r. (row_source r, row_content r, parse_metadata env (row_metadata r), None))
           (sql_limit limit
              (filter (\<lambda>r. sql_like (row_content r) (''%'' @ q @ ''%'')
                         \<and> readable (row_source r) (row_content r))
                 (documents d)))"
proof -
  let ?keep = "\<lambda>r. sql_like (row_content r) (''%'' @ q @ ''%'')
                  \<and> readable (row_source r) (row_content r)"
  let ?sel = "sql_limit limit (filter ?keep (documents d))"
  from select_keyword_ok [OF assms(3,2)] obtain rows where
    sel: "select_keyword env d (''%'' @ q @ ''%'') limit = Inr rows" by blast
  from select_keyword_selected [OF sel]
  have rows: "rows = map (\<lambda>r. (row_source r, row_content r, row_metadata r)) ?sel" .
  have "\<forall>row \<in> set rows. \<exists>m. parse_metadata env (snd (snd row)) = Inr m"
    using assms(4) unfolding rows by auto
  from format_keyword_rows_total [OF this] obtain found where
    fmt: "format_keyword_rows env rows = Inr found" by blast
  from sel fmt assms(1) have res: "search_keyword env d q limit = Inr found"
    by (simp add: search_keyword_def)
  from format_keyword_rows_entries [OF fmt]
  have "map (\<lambda>h. (hit_source h, hit_content h, Inr (hit_metadata h) :: exn + pyval,
                 hit_distance h)) found
       = map (\<lambda>r. (row_source r, row_content r, parse_metadata env (row_metadata r), None)) ?sel"
    unfolding rows by simp
  with res show ?thesis by blast
qed

lemma demo_keyword_wildcard:
  "search_keyword demo_env demo_store ''road_ap'' 5
     = Inr [demo_hit ''slack'' None, demo_hit ''github'' None]"
  by (simp add: search_keyword_def select_keyword_def sql_simps demo_simps)

lemma demo_keyword_unlimited:
  "search_keyword demo_env demo_store ''roadmap'' (- 1)
     = Inr [demo_hit ''slack'' None, demo_hit ''github'' None]"
  by (simp add: search_keyword_def select_keyword_def sql_simps demo_simps)

text \<open>
  Claim C6 says that \<^verbatim>\<open>search_keyword\<close> returns exactly the rows whose content contains the
  query as a case-insensitive substring, and at most \<^verbatim>\<open>limit\<close> rows for every integer limit.
  The query is pasted into a \<^verbatim>\<open>LIKE\<close> pattern, so \<^verbatim>\<open>_\<close> and \<^verbatim>\<open>%\<close> in it are wildcards: the
  query "road\_ap" returns rows with the content "Quarterly roadmap notes", which does not
  contain it. A negative limit is no limit for \<^verbatim>\<open>LIMIT\<close>: with limit -1 two rows come back.
\<close>

theorem search_keyword_substring_counterexample:
  "search_keyword demo_env demo_store ''road_ap'' 5
     = Inr [demo_hit ''slack'' None, demo_hit ''github'' None]
   \<and> hit_content (demo_hit ''slack'' None) = Some ''Quarterly roadmap notes''
   \<and> \<not> contains_ci ''road_ap'' ''Quarterly roadmap notes''
   \<and> search_keyword demo_env demo_store ''roadmap'' (- 1)
     = Inr [demo_hit ''slack'' None, demo_hit ''github'' None]
   \<and> \<not> int (length [demo_hit ''slack'' None, demo_hit ''github'' None]) \<le> - 1"
  by (simp add: demo_keyword_wildcard demo_keyword_unlimited demo_hit_def sql_lower_def)

text \<open>
  Claim C6, amended. Every entry \<^verbatim>\<open>search_keyword\<close> returns has no distance and is the
  source, the content and the decoded metadata of a stored row whose content matches the
  \<^verbatim>\<open>LIKE\<close> pattern made of \<^verbatim>\<open>%\<close>, the query and \<^verbatim>\<open>%\<close>, and which passes the read filters; for
  a limit that is not negative there are at most \<^verbatim>\<open>limit\<close> entries. When the connection and the
  statement do not raise, the limit fits 64 bits and the metadata of the selected rows decodes,
  the entries are, in table order, exactly the matching rows that pass the filters, cut by
  \<^verbatim>\<open>LIMIT\<close> (the first \<^verbatim>\<open>limit\<close> of them, all of them for a negative limit). For a query
  without \<^verbatim>\<open>%\<close>, \<^verbatim>\<open>_\<close> and NUL, a content matches the pattern exactly when its part before
  its first NUL (all of it when it has none) contains the query as a substring up to the case
  of ASCII letters. When the statement raises (a limit beyond 64 bits among others) or the
  metadata of a selected row does not decode, the result is the empty list. When the
  connection cannot be opened, the call raises that exception.
\<close>

theorem search_keyword_like_semantics:
  "(search_keyword env d q limit = Inr hs \<longrightarrow>
      (\<forall>h \<in> set hs. hit_distance h = None
          \<and> (\<exists>r \<in> set (documents d). hit_source h = row_source r \<and> hit_content h = row_content r
                \<and> parse_metadata env (row_metadata r) = Inr (hit_metadata h)
                \<and> sql_like (row_content r) (''%'' @ q @ ''%'')
                \<and> readable (row_source r) (row_content r)))
      \<and> (0 \<le> limit \<longrightarrow> int (length hs) \<le> limit))
   \<and> (fails env Connect_keyword = None \<and> fails env Select_keyword = None \<and> fits_int64 limit
        \<and> (\<forall>r \<in> set (sql_limit limit
                        (filter (\<lambda>r. sql_like (row_content r) (''%'' @ q @ ''%'')
                                   \<and> readable (row_source r) (row_content r))
                           (documents d))).
              \<exists>m. parse_metadata env (row_metadata r) = Inr m) \<longrightarrow>
        (\<exists>found. search_keyword env d q limit = Inr found
           \<and> map (\<lambda>h. (hit_source h, hit_content h, Inr (hit_metadata h) :: exn + pyval,
                       hit_distance h)) found
             = map (\<lambda>r. (row_source r, row_content r, parse_metadata env (row_metadata r), None))
                 (sql_limit limit
                    (filter (\<lambda>r. sql_like (row_content r) (''%'' @ q @ ''%'')
                               \<and> readable (row_source r) (row_content r))
                       (documents d)))))
   \<and> (CHR ''%'' \<notin> set q \<and> CHR ''_'' \<notin> set q \<and> CHR 0x00 \<notin> set q \<longrightarrow>
        (\<forall>c. sql_like (Some c) (''%'' @ q @ ''%'') = contains_ci q (sql_cstr c)))
   \<and> (fails env Connect_keyword = None
        \<and> (\<not> fits_int64 limit \<or> fails env Select_keyword \<noteq> None) \<longrightarrow>
        search_keyword env d q limit = Inr [])
   \<and> (fails env Connect_keyword = None
        \<and> (\<exists>r \<in> set (sql_limit limit
                        (filter (\<lambda>r. sql_like (row_content r) (''%'' @ q @ ''%'')
                                   \<and> readable (row_source r) (row_content r))
                           (documents d))).
              \<exists>e. parse_metadata env (row_metadata r) = Inl e) \<longrightarrow>
        search_keyword env d q limit = Inr [])
   \<and> (\<forall>e. fails env Connect_keyword = Some e \<longrightarrow> search_keyword env d q limit = Inl e)"
proof (intro conjI impI ballI allI)
  fix h assume ret: "search_keyword env d q limit = Inr hs" and h: "h \<in> set hs"
  show "hit_distance h = None" using ret h by (rule search_keyword_no_distance)
  show "\<exists>r \<in> set (documents d). hit_source h = row_source r \<and> hit_content h = row_content r
                \<and> parse_metadata env (row_metadata r) = Inr (hit_metadata h)
                \<and> sql_like (row_content r) (''%'' @ q @ ''%'')
                \<and> readable (row_source r) (row_content r)"
    using ret h by (rule search_keyword_entry)
next
  assume "search_keyword env d q limit = Inr hs" "0 \<le> limit"
  then show "int (length hs) \<le> limit" by (rule search_keyword_length)
next
  assume "fails env Connect_keyword = None \<and> fails env Select_keyword = None \<and> fits_int64 limit
        \<and> (\<forall>r \<in> set (sql_limit limit
                        (filter (\<lambda>r. sql_like (row_content r) (''%'' @ q @ ''%'')
                                   \<and> readable (row_source r) (row_content r))
                           (documents d))).
              \<exists>m. parse_metadata env (row_metadata r) = Inr m)"
  then show "\<exists>found. search_keyword env d q limit = Inr found
           \<and> map (\<lambda>h. (hit_source h, hit_content h, Inr (hit_metadata h) :: exn + pyval,
                       hit_distance h)) found
             = map (\<lambda>r. (row_source r, row_content r, parse_metadata env (row_metadata r), None))
                 (sql_limit limit
                    (filter (\<lambda>r. sql_like (row_content r) (''%'' @ q @ ''%'')
                               \<and> readable (row_source r) (row_content r))
                       (documents d)))"
    using search_keyword_exact [of env limit q d] by blast
next
  fix c
  assume "CHR ''%'' \<notin> set q \<and> CHR ''_'' \<notin> set q \<and> CHR 0x00 \<notin> set q"
  then show "sql_like (Some c) (''%'' @ q @ ''%'') = contains_ci q (sql_cstr c)"
    using sql_like_substring by blast
next
  assume "fails env Connect_keyword = None
        \<and> (\<not> fits_int64 limit \<or> fails env Select_keyword \<noteq> None)"
  then show "search_keyword env d q limit = Inr []"
    using search_keyword_statement_raises [of env limit d q] by blast
next
  assume "fails env Connect_keyword = None
        \<and> (\<exists>r \<in> set (sql_limit limit
                        (filter (\<lambda>r. sql_like (row_content r) (''%'' @ q @ ''%'')
                                   \<and> readable (row_source r) (row_content r))
                           (documents d))).
              \<exists>e. parse_metadata env (row_metadata r) = Inl e)"
  then show "search_keyword env d q limit = Inr []"
    using search_keyword_decode_raises [of env] by blast
next
  fix e assume "fails env Connect_keyword = Some e"
  then show "search_keyword env d q limit = Inl e" by (simp add: search_keyword_def)
qed

lemma demo_added_selected:
  "sql_limit 5 (filter (\<lambda>r. sql_like (row_content r) ''%roadmap%''
                           \<and> readable (row_source r) (row_content r))
                  (documents demo_added))
   = [\<lparr>row_rowid = 1, row_id = ''id-'', row_source = Some ''slack'',
        row_content = Some ''Quarterly roadmap notes'', row_metadata = Some ''{}''\<rparr>]"
  by (simp add: demo_added_def readable_def sql_simps)

theorem search_keyword_like_semantics_witness:
  "search_keyword demo_env demo_store ''roadmap'' 5
     = Inr [demo_hit ''slack'' None, demo_hit ''github'' None]
   \<and> (0 :: int) \<le> 5
   \<and> int (length [demo_hit ''slack'' None, demo_hit ''github'' None]) \<le> 5
   \<and> hit_distance (demo_hit ''github'' None) = None
   \<and> (\<exists>r \<in> set (documents demo_store).
         hit_source (demo_hit ''github'' None) = row_source r
       \<and> hit_content (demo_hit ''github'' None) = row_content r
       \<and> parse_metadata demo_env (row_metadata r) = Inr (hit_metadata (demo_hit ''github'' None))
       \<and> sql_like (row_content r) (''%'' @ ''roadmap'' @ ''%'')
       \<and> readable (row_source r) (row_content r))
   \<and> fails demo_env Connect_keyword = None \<and> fails demo_env Select_keyword = None
   \<and> fits_int64 5
   \<and> search_keyword demo_env demo_added ''roadmap'' 5 = Inr [demo_hit ''slack'' None]
   \<and> CHR ''%'' \<notin> set ''roadmap'' \<and> CHR ''_'' \<notin> set ''roadmap'' \<and> CHR 0x00 \<notin> set ''roadmap''
   \<and> sql_like (Some ''roadmap ok'') (''%'' @ ''roadmap'' @ ''%'')
       = contains_ci ''roadmap'' (sql_cstr ''roadmap ok'')
   \<and> \<not> fits_int64 9223372036854775808
   \<and> search_keyword demo_env demo_added ''roadmap'' 9223372036854775808 = Inr []
   \<and> fails bad_json_env Connect_keyword = None
   \<and> parse_metadata bad_json_env (Some ''{}'') = Inl JSONDecodeError
   \<and> search_keyword bad_json_env demo_added ''roadmap'' 5 = Inr []
   \<and> fails keyword_down_env Connect_keyword = Some OperationalError
   \<and> search_keyword keyword_down_env demo_added ''roadmap'' 5 = Inl OperationalError"
proof -
  note sem = search_keyword_like_semantics [of demo_env demo_store "''roadmap''" 5
      "[demo_hit ''slack'' None, demo_hit ''github'' None]"]
  have plain: "CHR ''%'' \<notin> set ''roadmap'' \<and> CHR ''_'' \<notin> set ''roadmap''
      \<and> CHR 0x00 \<notin> set ''roadmap''"
    by simp
  have env: "fails demo_env Connect_keyword = None" "fails demo_env Select_keyword = None"
    "fits_int64 5"
    by (simp_all add: demo_env_def fits_int64_def)
  from sem [THEN conjunct1, rule_format, OF demo_keyword_roadmap]
  have entries: "\<forall>h \<in> set [demo_hit ''slack'' None, demo_hit ''github'' None].
      hit_distance h = None
      \<and> (\<exists>r \<in> set (documents demo_store). hit_source h = row_source r
            \<and> hit_content h = row_content r
            \<and> parse_metadata demo_env (row_metadata r) = Inr (hit_metadata h)
            \<and> sql_like (row_content r) (''%'' @ ''roadmap'' @ ''%'')
            \<and> readable (row_source r) (row_content r))"
    and bound: "0 \<le> (5 :: int) \<longrightarrow>
      int (length [demo_hit ''slack'' None, demo_hit ''github'' None]) \<le> 5"
    by blast+
  from sem [THEN conjunct2, THEN conjunct2, THEN conjunct1, rule_format, OF plain]
  have like: "sql_like (Some ''roadmap ok'') (''%'' @ ''roadmap'' @ ''%'')
       = contains_ci ''roadmap'' (sql_cstr ''roadmap ok'')" .
  have decodes: "fails demo_env Connect_keyword = None \<and> fails demo_env Select_keyword = None
      \<and> fits_int64 5
      \<and> (\<forall>r \<in> set (sql_limit 5
                      (filter (\<lambda>r. sql_like (row_content r) (''%'' @ ''roadmap'' @ ''%'')
                                 \<and> readable (row_source r) (row_content r))
                         (documents demo_added))).
            \<exists>m. parse_metadata demo_env (row_metadata r) = Inr m)"
    using env by (simp add: demo_added_selected parse_metadata_def demo_env_def)
  from search_keyword_like_semantics [of demo_env demo_added "''roadmap''" 5 "[]",
      THEN conjunct2, THEN conjunct1, rule_format, OF decodes]
  have exact: "search_keyword demo_env demo_added ''roadmap'' 5 = Inr [demo_hit ''slack'' None]"
    by (auto simp: demo_added_selected parse_metadata_def demo_env_def demo_hit_def)
  have big: "\<not> fits_int64 9223372036854775808" by (simp add: fits_int64_def)
  from search_keyword_like_semantics [of demo_env demo_added "''roadmap''"
      9223372036854775808 "[]", THEN conjunct2, THEN conjunct2, THEN conjunct2, THEN conjunct1]
    env(1) big
  have overflow: "search_keyword demo_env demo_added ''roadmap'' 9223372036854775808 = Inr []"
    by blast
  have bad: "fails bad_json_env Connect_keyword = None"
    "parse_metadata bad_json_env (Some ''{}'') = Inl JSONDecodeError"
    by (simp_all add: bad_json_env_def demo_env_def parse_metadata_def)
  have bad_hyp: "fails bad_json_env Connect_keyword = None
      \<and> (\<exists>r \<in> set (sql_limit 5
                      (filter (\<lambda>r. sql_like (row_content r) (''%'' @ ''roadmap'' @ ''%'')
                                 \<and> readable (row_source r) (row_content r))
                         (documents demo_added))).
            \<exists>e. parse_metadata bad_json_env (row_metadata r) = Inl e)"
    using bad by (simp add: demo_added_selected)
  from search_keyword_like_semantics [of bad_json_env demo_added "''roadmap''" 5 "[]",
      THEN conjunct2, THEN conjunct2, THEN conjunct2, THEN conjunct2, THEN conjunct1,
      rule_format, OF bad_hyp]
  have undecodable: "search_keyword bad_json_env demo_added ''roadmap'' 5 = Inr []" .
  have down: "fails keyword_down_env Connect_keyword = Some OperationalError"
    by (simp add: keyword_down_env_def)
  from search_keyword_like_semantics [of keyword_down_env demo_added "''roadmap''" 5 "[]",
      THEN conjunct2, THEN conjunct2, THEN conjunct2, THEN conjunct2, THEN conjunct2,
      rule_format, OF down]
  have raised: "search_keyword keyword_down_env demo_added ''roadmap'' 5 = Inl OperationalError" .
  from entries bound env plain demo_keyword_roadmap like exact big overflow bad undecodable
    down raised
  show ?thesis by simp
qed

end
